theory Spec2Isabelle
  imports Main "HOL-Library.Sublist" "HOL-Library.Char_ord" "HOL-Library.List_Lexorder"
    "HOL-Library.AList"
begin

section \<open>Python strings and paths\<close>

text \<open>
  The module runs under Python 2 (\<^verbatim>\<open>dict.iteritems\<close>), where file names are byte
  strings and \<^verbatim>\<open>str.lower\<close> maps the ASCII capitals to the small letters: it sets
  the bit of value 32, which no capital has.
\<close>

definition lower_char :: "char \<Rightarrow> char" where
  "lower_char c =
     (if c \<in> set ''ABCDEFGHIJKLMNOPQRSTUVWXYZ''
      then (case c of Char b0 b1 b2 b3 b4 b5 b6 b7 \<Rightarrow> Char b0 b1 b2 b3 b4 True b6 b7)
      else c)"

definition lower :: "string \<Rightarrow> string" where
  "lower s = map lower_char s"

text \<open>\<^verbatim>\<open>sub in s\<close>: some suffix of \<open>s\<close> starts with \<open>sub\<close>.\<close>

fun str_in :: "string \<Rightarrow> string \<Rightarrow> bool" where
  "str_in sub [] = (sub = [])"
| "str_in sub (c # cs) = (prefix sub (c # cs) \<or> str_in sub cs)"

text \<open>\<^verbatim>\<open>s.find(sub)\<close>: the index of the first occurrence, or \<open>-1\<close>.\<close>

fun find_from :: "string \<Rightarrow> string \<Rightarrow> nat \<Rightarrow> int" where
  "find_from sub [] n = (if sub = [] then int n else - 1)"
| "find_from sub (c # cs) n =
     (if prefix sub (c # cs) then int n else find_from sub cs (Suc n))"

definition str_find :: "string \<Rightarrow> string \<Rightarrow> int" where
  "str_find s sub = find_from sub s 0"

text \<open>\<^verbatim>\<open>s[:k]\<close>; a negative \<open>k\<close> counts from the end.\<close>

definition slice_to :: "string \<Rightarrow> int \<Rightarrow> string" where
  "slice_to s k =
     (if 0 \<le> k then take (nat k) s else take (length s - nat (- k)) s)"

text \<open>\<^verbatim>\<open>os.path.join(a, b)\<close> on a POSIX system.\<close>

definition os_path_join :: "string \<Rightarrow> string \<Rightarrow> string" where
  "os_path_join a b =
     (if b \<noteq> [] \<and> hd b = CHR ''/'' then b
      else if a = [] \<or> last a = CHR ''/'' then a @ b
      else a @ ''/'' @ b)"

definition os_path_isabs :: "string \<Rightarrow> bool" where
  "os_path_isabs p = (p \<noteq> [] \<and> hd p = CHR ''/'')"

section \<open>Scene nodes and the host application\<close>

datatype error = TypeError | UnboundLocalError | IndexError | AttributeError | OSError

text \<open>
  A volume node, as far as the module looks at it: the name the host gave it
  (\<^verbatim>\<open>GetName\<close>) and the file it was read from.
\<close>

record volume =
  vol_name :: string
  vol_file :: string

text \<open>
  A segment has a name and, once something was drawn or imported, a voxel array
  (the binary labelmap); a segment added by \<^verbatim>\<open>AddEmptySegment\<close> has none,
  and \<^verbatim>\<open>arrayFromSegment\<close> fails on it with an \<^verbatim>\<open>AttributeError\<close>.
\<close>

type_synonym segment = "string \<times> nat list option"

text \<open>
  A segmentation node: its name, the visibility and the view restriction of its display
  node, its segments, and the node reference stored by
  \<^verbatim>\<open>SetReferenceImageGeometryParameterFromVolumeNode\<close> (the master volume).
\<close>

record seg_node =
  seg_name :: string
  seg_visible :: bool
  seg_view :: "string option"
  seg_segments :: "segment list"
  seg_master :: "volume option"

text \<open>
  The scene holds the segmentation nodes in the order they were added; a node is referred
  to by its position. \<open>backgrounds\<close> records, per slice view, the background volume set
  by \<^verbatim>\<open>SetBackgroundVolumeID\<close>; \<open>selected_module\<close> is the module shown.
\<close>

record scene =
  segs :: "seg_node list"
  backgrounds :: "(string \<times> volume) list"
  selected_module :: string

text \<open>
  The host calls whose results the module only passes on: reading a volume file, reading
  a label file and importing it as segments, listing a directory (\<open>None\<close>: the
  directory cannot be listed, \<^verbatim>\<open>OSError\<close>), \<^verbatim>\<open>os.path.isdir\<close>, the names of the
  layout's slice views, the IDs of the scene's slice nodes, and the order in which the
  Python runtime hands out the items of the series table (a permutation of \<open>images\<close>
  below; Python 2 does not fix the order of a dictionary). Reading a volume is taken to
  give a node: the module stores whatever the host returns, without a test.
\<close>

record host =
  loadVolume :: "string \<Rightarrow> volume"
  importLabelmap :: "string \<Rightarrow> segment list"
  listdir :: "string \<Rightarrow> string list option"
  isdir :: "string \<Rightarrow> bool"
  sliceViewNames :: "string list"
  sliceNodeIDs :: "string list"
  images_items :: "(string \<times> nat) list"

section \<open>The case: \<^verbatim>\<open>SlicerCaseHCCIteratorLogic\<close>\<close>

text \<open>
  The attributes of the case: the 18 volume slots, the four label slots (a label is the
  position of its segmentation node in the scene), the lists of the four views, and the
  settings. \<^verbatim>\<open>image_root\<close> does not exist before the loader has run. The attributes
  \<^verbatim>\<open>GenerateMasks\<close>, \<^verbatim>\<open>GenerateAddMasks\<close> and \<^verbatim>\<open>image_nodes\<close>, which are set once
  and never read, are left out.
\<close>

record hcc_case =
  sub_dir :: string
  pre_T1_pre :: "volume option"
  pre_T1_EA :: "volume option"
  pre_T1_EA_sub :: "volume option"
  pre_T1_LA :: "volume option"
  pre_T1_LA_sub :: "volume option"
  pre_T1_PV :: "volume option"
  pre_T1_PV_sub :: "volume option"
  pre_ADC :: "volume option"
  post_T1_pre :: "volume option"
  post_T1_EA :: "volume option"
  post_T1_EA_sub :: "volume option"
  post_T1_LA :: "volume option"
  post_T1_LA_sub :: "volume option"
  post_T1_PV :: "volume option"
  post_T1_PV_sub :: "volume option"
  post_ADC :: "volume option"
  post_ADC_Eq_1 :: "volume option"
  pre_ADC_Eq_1 :: "volume option"
  pre_T1_label :: "nat option"
  post_T1_label :: "nat option"
  pre_ADC_label :: "nat option"
  post_ADC_label :: "nat option"
  volumesLoad :: "volume option list"
  labelVolumesLoad :: "nat option list"
  root :: "string option"
  addIms :: "string list"
  addMas :: "string list"
  redirect :: bool
  mask_nodes :: "(string \<times> nat) list"
  reader_name :: string
  image_root :: "string option"

text \<open>The table of the 18 series names of \<^verbatim>\<open>load_data_to_placeholders\<close>.\<close>

definition images :: "(string \<times> nat) list" where
  "images =
     [(''pre_T1_pre'', 0), (''pre_T1_EA'', 1), (''pre_T1_EA_sub'', 2), (''pre_T1_LA'', 3),
      (''pre_T1_LA_sub'', 4), (''pre_T1_PV'', 5), (''pre_T1_PV_sub'', 6), (''pre_ADC'', 7),
      (''post_T1_pre'', 8), (''post_T1_EA'', 9), (''post_T1_EA_sub'', 10), (''post_T1_LA'', 11),
      (''post_T1_LA_sub'', 12), (''post_T1_PV'', 13), (''post_T1_PV_sub'', 14), (''post_ADC'', 15),
      (''post_ADC_Eq_1'', 16), (''pre_ADC_Eq_1'', 17)]"

text \<open>
  The accumulators of \<^verbatim>\<open>load_data_to_placeholders\<close>: \<open>raws\<close>, \<open>labels\<close>, and the
  scene's segmentation nodes, to which every imported label is added.
\<close>

type_synonym load_acc = "(volume \<times> nat) list \<times> (nat \<times> nat) list \<times> seg_node list"

text \<open>
  The two tests the inner loop makes for the series \<open>j\<close> with number \<open>count\<close> on the
  file \<open>i\<close>, whose lower-cased name is \<open>file_name\<close>: a volume is read and appended to
  \<open>raws\<close>; a label file is imported into a new, hidden segmentation node named after
  the series, which is appended to \<open>labels\<close>.
\<close>

definition match_volume ::
  "host \<Rightarrow> string \<Rightarrow> string \<Rightarrow> string \<Rightarrow> string \<Rightarrow> nat \<Rightarrow> load_acc \<Rightarrow> load_acc" where
  "match_volume h subject_dir i file_name j count acc =
     (if str_in (lower j @ ''.nii.gz'') file_name
      then (case acc of (raws, labels, sg) \<Rightarrow>
              (raws @ [(loadVolume h (os_path_join subject_dir i), count)], labels, sg))
      else acc)"

definition match_label ::
  "host \<Rightarrow> string \<Rightarrow> string \<Rightarrow> string \<Rightarrow> string \<Rightarrow> string \<Rightarrow> nat \<Rightarrow> load_acc \<Rightarrow> load_acc" where
  "match_label h rd subject_dir i file_name j count acc =
     (if str_in (lower j @ ''_tumor_'' @ lower rd @ ''.nii.gz'') file_name
      then (case acc of (raws, labels, sg) \<Rightarrow>
              (raws, labels @ [(length sg, count)],
               sg @ [\<lparr>seg_name = j @ ''_segment'', seg_visible = False, seg_view = None,
                      seg_segments = importLabelmap h (os_path_join subject_dir i),
                      seg_master = None\<rparr>]))
      else acc)"

text \<open>
  The inner loop, over the items of the table. The order in which a Python 2 dictionary
  hands out its items is not fixed by the language, so the items are an argument.
\<close>

fun scan_series ::
  "host \<Rightarrow> string \<Rightarrow> string \<Rightarrow> string \<Rightarrow> string \<Rightarrow> (string \<times> nat) list \<Rightarrow> load_acc \<Rightarrow>
     load_acc" where
  "scan_series h rd subject_dir i file_name [] acc = acc"
| "scan_series h rd subject_dir i file_name ((j, count) # js) acc =
     scan_series h rd subject_dir i file_name js
       (match_label h rd subject_dir i file_name j count
          (match_volume h subject_dir i file_name j count acc))"

text \<open>The outer loop, over the directory listing.\<close>

fun scan_files ::
  "host \<Rightarrow> string \<Rightarrow> string \<Rightarrow> (string \<times> nat) list \<Rightarrow> string list \<Rightarrow> load_acc \<Rightarrow> load_acc" where
  "scan_files h rd subject_dir items [] acc = acc"
| "scan_files h rd subject_dir items (i # is) acc =
     scan_files h rd subject_dir items is
       (scan_series h rd subject_dir i (lower i) items acc)"

definition load_data_to_placeholders ::
  "host \<Rightarrow> (string \<times> nat) list \<Rightarrow> hcc_case \<Rightarrow> seg_node list \<Rightarrow> string \<Rightarrow>
     error + (hcc_case \<times> load_acc)" where
  "load_data_to_placeholders h items c sg subject_dir =
     (let c' = c\<lparr>image_root := Some subject_dir\<rparr>
      in case listdir h subject_dir of
           None \<Rightarrow> Inl OSError
         | Some files \<Rightarrow>
             Inr (c', scan_files h (reader_name c) subject_dir items files ([], [], sg)))"

text \<open>
  The first loop of \<^verbatim>\<open>select_placeholder_for_view\<close> tests the number of each entry
  of \<open>raws\<close> against 0 to 17, one \<^verbatim>\<open>if\<close> after the other, and stores the volume in
  the attribute of that number.
\<close>

definition raw_slots :: "(nat \<times> (volume option \<Rightarrow> hcc_case \<Rightarrow> hcc_case)) list" where
  "raw_slots =
     [(0, \<lambda>v c. c\<lparr>pre_T1_pre := v\<rparr>), (1, \<lambda>v c. c\<lparr>pre_T1_EA := v\<rparr>),
      (2, \<lambda>v c. c\<lparr>pre_T1_EA_sub := v\<rparr>), (3, \<lambda>v c. c\<lparr>pre_T1_LA := v\<rparr>),
      (4, \<lambda>v c. c\<lparr>pre_T1_LA_sub := v\<rparr>), (5, \<lambda>v c. c\<lparr>pre_T1_PV := v\<rparr>),
      (6, \<lambda>v c. c\<lparr>pre_T1_PV_sub := v\<rparr>), (7, \<lambda>v c. c\<lparr>pre_ADC := v\<rparr>),
      (8, \<lambda>v c. c\<lparr>post_T1_pre := v\<rparr>), (9, \<lambda>v c. c\<lparr>post_T1_EA := v\<rparr>),
      (10, \<lambda>v c. c\<lparr>post_T1_EA_sub := v\<rparr>), (11, \<lambda>v c. c\<lparr>post_T1_LA := v\<rparr>),
      (12, \<lambda>v c. c\<lparr>post_T1_LA_sub := v\<rparr>), (13, \<lambda>v c. c\<lparr>post_T1_PV := v\<rparr>),
      (14, \<lambda>v c. c\<lparr>post_T1_PV_sub := v\<rparr>), (15, \<lambda>v c. c\<lparr>post_ADC := v\<rparr>),
      (16, \<lambda>v c. c\<lparr>post_ADC_Eq_1 := v\<rparr>), (17, \<lambda>v c. c\<lparr>pre_ADC_Eq_1 := v\<rparr>)]"

definition store_if :: "volume \<times> nat \<Rightarrow> nat \<times> (volume option \<Rightarrow> hcc_case \<Rightarrow> hcc_case) \<Rightarrow> hcc_case \<Rightarrow> hcc_case" where
  "store_if i slot c = (if snd i = fst slot then snd slot (Some (fst i)) c else c)"

definition assign_raw :: "volume \<times> nat \<Rightarrow> hcc_case \<Rightarrow> hcc_case" where
  "assign_raw i c = fold (store_if i) raw_slots c"

text \<open>The body of its second loop.\<close>

definition assign_label :: "nat \<times> nat \<Rightarrow> hcc_case \<Rightarrow> hcc_case" where
  "assign_label i c =
     (let c = (if snd i \<in> set [1, 3] then c\<lparr>pre_T1_label := Some (fst i)\<rparr> else c);
          c = (if snd i \<in> set [9, 11] then c\<lparr>post_T1_label := Some (fst i)\<rparr> else c);
          c = (if snd i \<in> set [15, 16] then c\<lparr>post_ADC_label := Some (fst i)\<rparr> else c);
          c = (if snd i \<in> set [7, 17] then c\<lparr>pre_ADC_label := Some (fst i)\<rparr> else c)
      in c)"

definition select_placeholder_for_view ::
  "host \<Rightarrow> (string \<times> nat) list \<Rightarrow> hcc_case \<Rightarrow> seg_node list \<Rightarrow> string \<Rightarrow>
     error + (hcc_case \<times> seg_node list)" where
  "select_placeholder_for_view h items c sg subject_dir =
     (case load_data_to_placeholders h items c sg subject_dir of
        Inl e \<Rightarrow> Inl e
      | Inr (c', raws, labels, sg') \<Rightarrow>
          Inr (fold assign_label labels (fold assign_raw raws c'), sg'))"

text \<open>
  The slot a series number is stored in, read off the two loops above: every series has
  a volume slot of its own; eight of them share the four label slots, the other ten
  have none.
\<close>

definition volume_slot :: "nat \<Rightarrow> hcc_case \<Rightarrow> volume option" where
  "volume_slot n c =
     (if n = 0 then pre_T1_pre c else if n = 1 then pre_T1_EA c
      else if n = 2 then pre_T1_EA_sub c else if n = 3 then pre_T1_LA c
      else if n = 4 then pre_T1_LA_sub c else if n = 5 then pre_T1_PV c
      else if n = 6 then pre_T1_PV_sub c else if n = 7 then pre_ADC c
      else if n = 8 then post_T1_pre c else if n = 9 then post_T1_EA c
      else if n = 10 then post_T1_EA_sub c else if n = 11 then post_T1_LA c
      else if n = 12 then post_T1_LA_sub c else if n = 13 then post_T1_PV c
      else if n = 14 then post_T1_PV_sub c else if n = 15 then post_ADC c
      else if n = 16 then post_ADC_Eq_1 c else if n = 17 then pre_ADC_Eq_1 c
      else None)"

definition label_group :: "nat \<Rightarrow> nat list" where
  "label_group n =
     (if n \<in> set [1, 3] then [1, 3] else if n \<in> set [9, 11] then [9, 11]
      else if n \<in> set [15, 16] then [15, 16] else if n \<in> set [7, 17] then [7, 17]
      else [])"

definition label_slot :: "nat \<Rightarrow> hcc_case \<Rightarrow> nat option" where
  "label_slot n c =
     (if n \<in> set [1, 3] then pre_T1_label c else if n \<in> set [9, 11] then post_T1_label c
      else if n \<in> set [15, 16] then post_ADC_label c
      else if n \<in> set [7, 17] then pre_ADC_label c
      else None)"


section \<open>Choosing the volumes of the four views\<close>

definition nth_py :: "'a list \<Rightarrow> nat \<Rightarrow> error + 'a" where
  "nth_py xs i = (if i < length xs then Inr (xs ! i) else Inl IndexError)"

definition set_py :: "'a list \<Rightarrow> nat \<Rightarrow> 'a \<Rightarrow> error + 'a list" where
  "set_py xs i v = (if i < length xs then Inr (xs[i := v]) else Inl IndexError)"

definition bind_err :: "error + 'a \<Rightarrow> ('a \<Rightarrow> error + 'b) \<Rightarrow> error + 'b" where
  "bind_err r f = (case r of Inl e \<Rightarrow> Inl e | Inr x \<Rightarrow> f x)"

text \<open>\<^verbatim>\<open>seg_name[:seg_name.find("_segment")]\<close>\<close>

definition seg_stem :: "string \<Rightarrow> string" where
  "seg_stem nm = slice_to nm (str_find nm ''_segment'')"

text \<open>
  One block of \<^verbatim>\<open>correct_volumesLoad\<close>: view \<open>i\<close>, whose alternate volume is \<open>alt\<close>.
\<close>

definition swap_block ::
  "seg_node list \<Rightarrow> volume option \<Rightarrow> nat \<Rightarrow> nat option list \<Rightarrow> volume option list \<Rightarrow>
     error + volume option list" where
  "swap_block sg alt i labelmapNode_list volumesNode_list =
     (case nth_py labelmapNode_list i of
        Inl e \<Rightarrow> Inl e
      | Inr None \<Rightarrow> Inr volumesNode_list
      | Inr (Some l) \<Rightarrow>
          (case alt of
             None \<Rightarrow> Inr volumesNode_list
           | Some a \<Rightarrow>
               if str_in (seg_stem (seg_name (sg ! l))) (vol_name a)
               then set_py volumesNode_list i (Some a)
               else Inr volumesNode_list))"

text \<open>
  The source has three such blocks, for the views 0, 1 and 2; the fourth, for view 3 and
  \<^verbatim>\<open>pre_ADC_Eq_1\<close>, is commented out.
\<close>

definition correct_volumesLoad ::
  "hcc_case \<Rightarrow> seg_node list \<Rightarrow> volume option list \<Rightarrow> nat option list \<Rightarrow>
     error + volume option list" where
  "correct_volumesLoad c sg volumesNode_list labelmapNode_list =
     bind_err (swap_block sg (post_T1_LA c) 0 labelmapNode_list volumesNode_list) (\<lambda>vs.
     bind_err (swap_block sg (pre_T1_LA c) 1 labelmapNode_list vs) (\<lambda>vs.
     swap_block sg (post_ADC_Eq_1 c) 2 labelmapNode_list vs))"

text \<open>The first statements of \<^verbatim>\<open>_loadImages\<close> after the slots are filled.\<close>

definition set_view_lists :: "hcc_case \<Rightarrow> seg_node list \<Rightarrow> error + hcc_case" where
  "set_view_lists c sg =
     (let c = c\<lparr>volumesLoad := [post_T1_EA c, pre_T1_EA c, post_ADC c, pre_ADC c]\<rparr>;
          c = c\<lparr>labelVolumesLoad :=
                 [post_T1_label c, pre_T1_label c, post_ADC_label c, pre_ADC_label c]\<rparr>
      in bind_err (correct_volumesLoad c sg (volumesLoad c) (labelVolumesLoad c))
           (\<lambda>vs. Inr (c\<lparr>volumesLoad := vs\<rparr>)))"

text \<open>
  The loop that sets the background of each view, in the sorted order of the view names.
  Whatever fails inside its \<^verbatim>\<open>try\<close> (no fifth entry, no volume) is caught and the
  view keeps the background it had.
\<close>

fun set_backgrounds ::
  "volume option list \<Rightarrow> nat \<Rightarrow> string list \<Rightarrow> (string \<times> volume) list \<Rightarrow>
     (string \<times> volume) list" where
  "set_backgrounds vols i [] bg = bg"
| "set_backgrounds vols i (sliceViewName # rest) bg =
     set_backgrounds vols (Suc i) rest
       (if i < length vols
        then (case vols ! i of
                None \<Rightarrow> bg
              | Some v \<Rightarrow> AList.update sliceViewName v bg)
        else bg)"

text \<open>
  One round of the second loop, for the slice node \<open>sliceNode\<close> at position \<open>i\<close>: the view
  is left alone, or gets a new segmentation with the two empty segments, or shows the
  segmentation that was loaded for it.
\<close>

definition bind_view :: "hcc_case \<Rightarrow> nat \<Rightarrow> string \<Rightarrow> seg_node list \<Rightarrow> error + seg_node list" where
  "bind_view c i sliceNode sg =
     (case nth_py (labelVolumesLoad c) i of
        Inl e \<Rightarrow> Inl e
      | Inr segNode \<Rightarrow>
          (case nth_py (volumesLoad c) i of
             Inl e \<Rightarrow> Inl e
           | Inr None \<Rightarrow> Inr sg
           | Inr (Some v) \<Rightarrow>
               (case segNode of
                  None \<Rightarrow>
                    Inr (sg @ [\<lparr>seg_name = vol_name v @ ''_segment'', seg_visible = True,
                                 seg_view = Some sliceNode,
                                 seg_segments = [(''Target'', None), (''Background'', None)],
                                 seg_master = Some v\<rparr>])
                | Some l \<Rightarrow>
                    Inr (sg[l := (sg ! l)\<lparr>seg_visible := True, seg_view := Some sliceNode,
                                          seg_master := Some v\<rparr>]))))"

text \<open>
  The second loop: it ends at the first error, with the nodes as they are by then.
\<close>

fun bind_views ::
  "hcc_case \<Rightarrow> nat \<Rightarrow> string list \<Rightarrow> seg_node list \<Rightarrow> error option \<times> seg_node list" where
  "bind_views c i [] sg = (None, sg)"
| "bind_views c i (sliceNode # rest) sg =
     (case bind_view c i sliceNode sg of
        Inl e \<Rightarrow> (Some e, sg)
      | Inr sg' \<Rightarrow> bind_views c (Suc i) rest sg')"

text \<open>
  \<^verbatim>\<open>_loadImages\<close> returns the case (or the error that ended it) and the scene as it is
  by then.
\<close>

definition loadImages :: "host \<Rightarrow> hcc_case \<Rightarrow> scene \<Rightarrow> string \<Rightarrow> (error + hcc_case) \<times> scene" where
  "loadImages h c sc subject =
     (case select_placeholder_for_view h (images_items h) c (segs sc) subject of
        Inl e \<Rightarrow> (Inl e, sc)
      | Inr (c, sg) \<Rightarrow>
          (case set_view_lists c sg of
             Inl e \<Rightarrow> (Inl e, sc\<lparr>segs := sg\<rparr>)
           | Inr c \<Rightarrow>
               (let bg = set_backgrounds (volumesLoad c) 0 (sort (sliceViewNames h))
                           (backgrounds sc);
                    (e, sg) = bind_views c 0 (sort (sliceNodeIDs h)) sg;
                    sc = sc\<lparr>segs := sg, backgrounds := bg\<rparr>
                in case e of
                     Some e \<Rightarrow> (Inl e, sc)
                   | None \<Rightarrow> (Inr c, sc))))"

text \<open>
  The keyword arguments of the constructor, and the constructor: every slot starts
  empty, \<^verbatim>\<open>mask_nodes\<close> starts as an empty dictionary, and the images are loaded at once.
\<close>

record settings =
  s_root :: "string option"
  s_addIms :: "string list option"
  s_addMas :: "string list option"
  s_csv_dir :: "string option"
  s_redirect :: bool

definition case_root :: "host \<Rightarrow> settings \<Rightarrow> string option" where
  "case_root h st =
     (let r = (case s_root st of
                 None \<Rightarrow> None
               | Some rt \<Rightarrow>
                   if os_path_isabs rt \<and> isdir h rt then Some rt
                   else (case s_csv_dir st of
                           None \<Rightarrow> None
                         | Some d \<Rightarrow>
                             if isdir h (os_path_join d rt) then Some (os_path_join d rt)
                             else None))
      in case r of
           Some x \<Rightarrow> Some x
         | None \<Rightarrow>
             (case s_csv_dir st of
                None \<Rightarrow> None
              | Some d \<Rightarrow> if isdir h d then Some d else None))"

definition empty_case :: "host \<Rightarrow> string \<Rightarrow> string \<Rightarrow> settings \<Rightarrow> hcc_case" where
  "empty_case h subject rd st =
     \<lparr>sub_dir = subject,
      pre_T1_pre = None, pre_T1_EA = None, pre_T1_EA_sub = None, pre_T1_LA = None,
      pre_T1_LA_sub = None, pre_T1_PV = None, pre_T1_PV_sub = None, pre_ADC = None,
      post_T1_pre = None, post_T1_EA = None, post_T1_EA_sub = None, post_T1_LA = None,
      post_T1_LA_sub = None, post_T1_PV = None, post_T1_PV_sub = None, post_ADC = None,
      post_ADC_Eq_1 = None, pre_ADC_Eq_1 = None,
      pre_T1_label = None, post_T1_label = None, pre_ADC_label = None, post_ADC_label = None,
      volumesLoad = [], labelVolumesLoad = [],
      root = case_root h st,
      addIms = (case s_addIms st of None \<Rightarrow> [] | Some xs \<Rightarrow> xs),
      addMas = (case s_addMas st of None \<Rightarrow> [] | Some xs \<Rightarrow> xs),
      redirect = s_redirect st,
      mask_nodes = [],
      reader_name = rd,
      image_root = None\<rparr>"

definition new_case ::
  "host \<Rightarrow> scene \<Rightarrow> string \<Rightarrow> string \<Rightarrow> settings \<Rightarrow> (error + hcc_case) \<times> scene" where
  "new_case h sc subject rd st =
     (case loadImages h (empty_case h subject rd st) sc subject of
        (Inl e, sc) \<Rightarrow> (Inl e, sc)
      | (Inr c, sc) \<Rightarrow>
          (Inr c, if redirect c then sc\<lparr>selected_module := ''SegmentEditor''\<rparr> else sc))"

section \<open>Saving and closing\<close>

text \<open>
  \<^verbatim>\<open>arrayFromSegment\<close> on the first segment; \<open>None\<close> is the \<^verbatim>\<open>AttributeError\<close> the
  source catches (no first segment, or one without a voxel array).
\<close>

definition first_segment_array :: "seg_node \<Rightarrow> nat list option" where
  "first_segment_array node =
     (case seg_segments node of [] \<Rightarrow> None | (nm, a) # rest \<Rightarrow> a)"

text \<open>
  \<^verbatim>\<open>np.mean(segment_array) == 0.0\<close>. The voxels of a binary labelmap are unsigned
  bytes, so the mean is zero exactly when there is a voxel and all voxels sum to zero
  (the mean of no voxels is not a number and compares unequal); after the
  \<^verbatim>\<open>AttributeError\<close> the array is the scalar \<open>0.0\<close>, whose mean is zero.
\<close>

definition mean_is_zero :: "nat list option \<Rightarrow> bool" where
  "mean_is_zero a = (case a of None \<Rightarrow> True | Some xs \<Rightarrow> xs \<noteq> [] \<and> sum_list xs = 0)"

text \<open>
  The loop of \<^verbatim>\<open>_saveMasks\<close> over the items of \<open>nodes\<close>. \<open>name\<close> is the local variable
  of that name, \<open>None\<close> while it is unbound; \<open>out\<close> collects the files written so far, each
  with the node it was written from. An error ends the loop with the files written
  before it.
\<close>

fun saveMasks_loop ::
  "seg_node list \<Rightarrow> string \<Rightarrow> string option \<Rightarrow> (string \<times> nat) list \<Rightarrow> string option \<Rightarrow>
     (nat \<times> string) list \<Rightarrow> error option \<times> (nat \<times> string) list" where
  "saveMasks_loop sg folder rd [] name out = (None, out)"
| "saveMasks_loop sg folder rd ((nodename, node) # rest) name out =
     (if mean_is_zero (first_segment_array (sg ! node))
      then saveMasks_loop sg folder rd rest name out
      else
        (let masterVolumeNode = seg_master (sg ! node);
             name = (case masterVolumeNode of Some m \<Rightarrow> Some (vol_name m) | None \<Rightarrow> name)
         in case name of
              None \<Rightarrow> (Some UnboundLocalError, out)
            | Some nm \<Rightarrow>
                (let nm = (case rd of Some r \<Rightarrow> nm @ ''_tumor_'' @ r | None \<Rightarrow> nm);
                     filename = os_path_join folder nm @ ''.nii.gz''
                 in saveMasks_loop sg folder rd rest (Some nm) (out @ [(node, filename)]))))"

definition saveMasks ::
  "seg_node list \<Rightarrow> (string \<times> nat) list \<Rightarrow> string \<Rightarrow> string option \<Rightarrow>
     error option \<times> (nat \<times> string) list" where
  "saveMasks sg nodes folder rd = saveMasks_loop sg folder rd nodes None []"

text \<open>
  A dictionary comprehension: a later item with a key already present replaces the value
  of that key. Python 2 does not fix the order in which a dictionary is iterated; the
  model keeps the keys in the order of their first insertion, and \<open>saveMasks\<close> above
  takes the items in whatever order it is given them.
\<close>

definition dict_of :: "('k \<times> 'v) list \<Rightarrow> ('k \<times> 'v) list" where
  "dict_of kvs = fold (\<lambda>(k, v) d. AList.update k v d) kvs []"

text \<open>
  \<^verbatim>\<open>closeCase\<close> returns the error it ended with (if any), the files written and the
  scene. \<open>reader\<close> is the argument \<^verbatim>\<open>reader_name\<close>, \<open>None\<close> when it is left at its default.
\<close>

definition closeCase ::
  "hcc_case \<Rightarrow> scene \<Rightarrow> bool \<Rightarrow> bool \<Rightarrow> string option \<Rightarrow>
     error option \<times> (nat \<times> string) list \<times> scene" where
  "closeCase c sc save_loaded_masks save_new_masks reader =
     (let reader = (if reader = Some [] then None else reader)
      in case reader of
           None \<Rightarrow> (Some TypeError, [], sc)
         | Some r \<Rightarrow>
             (let loaded_masks =
                    dict_of (map (\<lambda>node. (seg_name (segs sc ! node), node))
                                 (map snd (mask_nodes c)));
                  new_masks =
                    dict_of (map (\<lambda>node. (seg_name (segs sc ! node), node))
                                 (filter (\<lambda>node. seg_name (segs sc ! node) \<notin> fst ` set loaded_masks)
                                         [0 ..< length (segs sc)]));
                  save = (\<lambda>nodes. case image_root c of
                                     None \<Rightarrow> (Some AttributeError, [])
                                   | Some folder \<Rightarrow> saveMasks (segs sc) nodes folder reader);
                  (e1, out1) = (if save_loaded_masks \<and> loaded_masks \<noteq> []
                                then save loaded_masks else (None, []))
              in case e1 of
                   Some e \<Rightarrow> (Some e, out1, sc)
                 | None \<Rightarrow>
                     (let (e2, out2) = (if save_new_masks \<and> new_masks \<noteq> []
                                        then save new_masks else (None, []))
                      in case e2 of
                           Some e \<Rightarrow> (Some e, out1 @ out2, sc)
                         | None \<Rightarrow> (None, out1 @ out2, sc\<lparr>segs := [], backgrounds := []\<rparr>))))"


section \<open>The iteration controller: \<^verbatim>\<open>SlicerCaseIteratorWidget\<close>\<close>

text \<open>More of Python's string library, used when a batch is started.\<close>

definition os_path_dirname :: "string \<Rightarrow> string" where
  "os_path_dirname p =
     (let head = rev (dropWhile (\<lambda>c. c \<noteq> CHR ''/'') (rev p))
      in if head \<noteq> [] \<and> \<not> list_all (\<lambda>c. c = CHR ''/'') head
         then rev (dropWhile (\<lambda>c. c = CHR ''/'') (rev head))
         else head)"

fun split_on :: "char \<Rightarrow> string \<Rightarrow> string list" where
  "split_on sep [] = [[]]"
| "split_on sep (x # xs) =
     (if x = sep then [] # split_on sep xs
      else (case split_on sep xs of
              [] \<Rightarrow> [[x]]
            | w # ws \<Rightarrow> (x # w) # ws))"

definition is_space :: "char \<Rightarrow> bool" where
  "is_space c = (c \<in> set [CHR '' '', CHR 0x09, CHR 0x0A, CHR 0x0B, CHR 0x0C, CHR 0x0D])"

definition strip :: "string \<Rightarrow> string" where
  "strip s = rev (dropWhile is_space (rev (dropWhile is_space s)))"

text \<open>
  The batch table: its number of rows, its columns by name (each with one value per
  row), and the file it was read from, if any.
\<close>

record table =
  tab_rows :: nat
  tab_columns :: "(string \<times> string list) list"
  tab_file :: "string option"

definition GetColumnByName :: "table \<Rightarrow> string \<Rightarrow> string list option" where
  "GetColumnByName t nm = map_of (tab_columns t) nm"

text \<open>
  \<^verbatim>\<open>GetValue\<close> of a column; the cursor is a row of the table whenever it is read, and
  outside the column (where the host's array is undefined) the model answers the empty
  string.
\<close>

definition GetValue :: "string list \<Rightarrow> int \<Rightarrow> string" where
  "GetValue col i = (if 0 \<le> i \<and> nat i < length col then col ! nat i else [])"

text \<open>The dictionary \<^verbatim>\<open>caseColumns\<close>, one field per key the source stores.\<close>

record columns =
  col_patient :: "string list option"
  col_root :: "string list option"
  col_image :: "string list option"
  col_mask :: "string list option"
  col_addIms :: "string list list option"
  col_addMas :: "string list list option"

definition no_columns :: columns where
  "no_columns = \<lparr>col_patient = None, col_root = None, col_image = None, col_mask = None,
                  col_addIms = None, col_addMas = None\<rparr>"

datatype log_entry = Debug string | Info string | Warning string

text \<open>
  The widget: the iteration variables, the shortcuts and observers, the state of the
  buttons and input widgets the module sets, what the user has entered, and the log
  (each entry is the message as written in the source, before formatting).
\<close>

record widget =
  csv_dir :: "string option"
  tableNode :: "table option"
  caseColumns :: "columns option"
  currentCase :: "hcc_case option"
  caseCount :: int
  currentIdx :: int
  shortcuts :: "string list"
  observers :: "string list"
  previousButton_enabled :: bool
  nextButton_enabled :: bool
  nextButton_text :: string
  resetButton_enabled :: bool
  resetButton_text :: string
  inputDataCollapsibleButton_collapsed :: bool
  parametersCollapsibleButton_collapsed :: bool
  inputPathSelector_enabled :: bool
  loadBatchButton_enabled :: bool
  batchTableSelector_enabled :: bool
  batchTableView_enabled :: bool
  inputParametersGroupBox_enabled :: bool
  batchTableSelector_currentNode :: "table option"
  npStart_value :: int
  rootSelector_text :: string
  imageSelector_text :: string
  maskSelector_text :: string
  addImsSelector_text :: string
  addMasksSelector_text :: string
  txtReaderName_text :: string
  chkAutoRedirect_checked :: bool
  chkSaveMasks_checked :: bool
  chkSaveNewMasks_checked :: bool
  logged :: "log_entry list"

definition logger :: "log_entry \<Rightarrow> widget \<Rightarrow> widget" where
  "logger e w = w\<lparr>logged := logged w @ [e]\<rparr>"

definition setGUIstate :: "bool \<Rightarrow> widget \<Rightarrow> widget" where
  "setGUIstate csv_loaded w =
     (let w =
        (if csv_loaded then
           (let w = w\<lparr>resetButton_text := ''Reset'',
                       inputDataCollapsibleButton_collapsed := True,
                       parametersCollapsibleButton_collapsed := True\<rparr>;
                w = (if length (shortcuts w) = 0
                     then w\<lparr>shortcuts := [''Ctrl+N'', ''Ctrl+P'']\<rparr>
                     else logger (Warning ''Shortcuts already initialized!'') w)
            in if length (observers w) = 0
               then w\<lparr>observers := [''EndCloseEvent'']\<rparr>
               else logger (Warning ''Event observer already initialized!'') w)
         else
           w\<lparr>resetButton_enabled := (batchTableSelector_currentNode w \<noteq> None),
             resetButton_text := ''Start Batch'',
             shortcuts := [],
             observers := []\<rparr>)
      in w\<lparr>previousButton_enabled := csv_loaded,
           nextButton_enabled := csv_loaded,
           inputPathSelector_enabled := (\<not> csv_loaded),
           loadBatchButton_enabled := (\<not> csv_loaded),
           batchTableSelector_enabled := (\<not> csv_loaded),
           batchTableView_enabled := (\<not> csv_loaded),
           inputParametersGroupBox_enabled := (\<not> csv_loaded)\<rparr>)"

text \<open>
  The columns named in a comma separated text field: those the table has, and a warning
  for each it has not.
\<close>

fun find_columns :: "table \<Rightarrow> string list \<Rightarrow> string list list \<times> log_entry list" where
  "find_columns t [] = ([], [])"
| "find_columns t (nm # nms) =
     (let (cols, warns) = find_columns t nms
      in case GetColumnByName t (strip nm) of
           Some col \<Rightarrow> (col # cols, warns)
         | None \<Rightarrow> (cols, Warning ''Unable to find column %s'' # warns))"

definition named_column ::
  "table \<Rightarrow> string \<Rightarrow> string list option \<times> log_entry list" where
  "named_column t txt =
     (if txt \<noteq> []
      then (case GetColumnByName t txt of
              Some col \<Rightarrow> (Some col, [])
            | None \<Rightarrow> (None, [Warning ''Unable to find column %s'']))
      else (None, []))"

definition named_columns ::
  "table \<Rightarrow> string \<Rightarrow> string list list option \<times> log_entry list" where
  "named_columns t txt =
     (if txt \<noteq> []
      then (let (cols, warns) = find_columns t (split_on CHR '','' txt)
            in (if length cols > 0 then Some cols else None, warns))
      else (None, []))"

text \<open>
  \<^verbatim>\<open>_startBatch\<close> returns the error it ended with (no table is selected), else whether
  the batch was started.
\<close>

definition startBatch :: "int \<Rightarrow> widget \<Rightarrow> (error + bool) \<times> widget" where
  "startBatch start w =
     (let w = w\<lparr>caseColumns := Some no_columns,
                 tableNode := batchTableSelector_currentNode w\<rparr>
      in case tableNode w of
           None \<Rightarrow> (Inl AttributeError, w)
         | Some batchTable \<Rightarrow>
             (let w = w\<lparr>csv_dir := map_option os_path_dirname (tab_file batchTable)\<rparr>;
                  w = w\<lparr>caseCount := int (tab_rows batchTable)\<rparr>
              in if caseCount w < start
                 then (Inr False, logger (Warning ''No cases to process (%d cases, start %d)'') w)
                 else
                   (let patientColumn =
                          (case GetColumnByName batchTable ''patient'' of
                             None \<Rightarrow> GetColumnByName batchTable ''ID''
                           | Some col \<Rightarrow> Some col);
                        (rootColumn, warn1) = named_column batchTable (rootSelector_text w);
                        (imageColumn, warn2) = named_column batchTable (imageSelector_text w);
                        (maskColumn, warn3) = named_column batchTable (maskSelector_text w);
                        (addIms, warn4) = named_columns batchTable (addImsSelector_text w);
                        (addMas, warn5) = named_columns batchTable (addMasksSelector_text w);
                        w = w\<lparr>caseColumns :=
                                Some \<lparr>col_patient = patientColumn, col_root = rootColumn,
                                      col_image = imageColumn, col_mask = maskColumn,
                                      col_addIms = addIms, col_addMas = addMas\<rparr>,
                              logged := logged w @ warn1 @ warn2 @ warn3 @ warn4 @ warn5\<rparr>;
                        w = setGUIstate True w;
                        w = w\<lparr>currentIdx := start - 1\<rparr>
                    in (Inr True, w))))"

text \<open>
  What an operation of the controller leaves behind: the error it ended with (if any),
  the widget, the scene, and the files written.
\<close>

type_synonym outcome = "error option \<times> widget \<times> scene \<times> (nat \<times> string) list"

definition lock_GUI :: "widget \<Rightarrow> widget" where
  "lock_GUI w = w\<lparr>previousButton_enabled := False, nextButton_enabled := False,
                   resetButton_enabled := False, nextButton_text := ''Loading...''\<rparr>"

definition unlock_GUI :: "widget \<Rightarrow> widget" where
  "unlock_GUI w = w\<lparr>previousButton_enabled := True, nextButton_enabled := True,
                     resetButton_enabled := True, nextButton_text := ''Next Case''\<rparr>"

text \<open>The part of \<^verbatim>\<open>loadCase\<close> after the cursor has moved to a row of the table.\<close>

definition load_row :: "host \<Rightarrow> widget \<Rightarrow> scene \<Rightarrow> (nat \<times> string) list \<Rightarrow> outcome" where
  "load_row h w sc out =
     (let w = lock_GUI w
      in case caseColumns w of
           None \<Rightarrow> (Some TypeError, w, sc, out)
         | Some cols \<Rightarrow>
             (let patient = map_option (\<lambda>col. GetValue col (currentIdx w)) (col_patient cols);
                  w = logger (Info (if patient \<noteq> None
                                    then ''Loading next patient (%d/%d): %s...''
                                    else ''Loading next patient (%d/%d)...'')) w;
                  rt = map_option (\<lambda>col. GetValue col (currentIdx w)) (col_root cols);
                  rt = (if rt = None \<and> rootSelector_text w \<noteq> []
                        then Some (rootSelector_text w) else rt);
                  st = \<lparr>s_root = rt,
                        s_addIms = map_option (map (\<lambda>col. GetValue col (currentIdx w)))
                                     (col_addIms cols),
                        s_addMas = map_option (map (\<lambda>col. GetValue col (currentIdx w)))
                                     (col_addMas cols),
                        s_csv_dir = csv_dir w,
                        s_redirect = chkAutoRedirect_checked w\<rparr>
              in case patient of
                   None \<Rightarrow> (Some UnboundLocalError, w, sc, out)
                 | Some subject \<Rightarrow>
                     (case new_case h sc subject (txtReaderName_text w) st of
                        (Inl e, sc) \<Rightarrow> (Some e, w, sc, out)
                      | (Inr c, sc) \<Rightarrow>
                          (None, unlock_GUI (w\<lparr>currentCase := Some c\<rparr>), sc, out))))"

definition loadCase :: "host \<Rightarrow> int \<Rightarrow> widget \<Rightarrow> scene \<Rightarrow> outcome" where
  "loadCase h idx_change w sc =
     (if currentIdx w < 0 then (None, w, sc, [])
      else if currentIdx w + idx_change < 0
      then (None, logger (Warning ''First case selected, cannot select previous case!'') w,
            sc, [])
      else
        (let (e, out, sc) =
               (case currentCase w of
                  None \<Rightarrow> (None, [], sc)
                | Some c \<Rightarrow>
                    closeCase c sc (chkSaveMasks_checked w) (chkSaveNewMasks_checked w)
                      (Some (txtReaderName_text w)))
         in case e of
              Some e \<Rightarrow> (Some e, w, sc, out)
            | None \<Rightarrow>
                (let w = w\<lparr>currentIdx := currentIdx w + idx_change\<rparr>
                 in if currentIdx w \<ge> caseCount w
                    then
                      (let w = setGUIstate False w;
                           w = w\<lparr>currentIdx := - 1, tableNode := None\<rparr>;
                           w = logger (Info ''########## All Done! ##########'') w
                       in (None, w, sc, out))
                    else load_row h w sc out)))"

definition onReset :: "host \<Rightarrow> widget \<Rightarrow> scene \<Rightarrow> outcome" where
  "onReset h w sc =
     (if currentIdx w < 0
      then
        (let w = lock_GUI w
         in case startBatch (npStart_value w) w of
              (Inl e, w) \<Rightarrow> (Some e, w, sc, [])
            | (Inr started, w) \<Rightarrow> if started then loadCase h 0 w sc else (None, w, sc, []))
      else
        (let w = setGUIstate False w
         in (None, w\<lparr>currentCase := None, caseColumns := None, currentIdx := - 1\<rparr>, sc, [])))"

definition onPrevious :: "host \<Rightarrow> widget \<Rightarrow> scene \<Rightarrow> outcome" where
  "onPrevious h w sc =
     (if currentIdx w < 0 then (None, w, sc, []) else loadCase h (- 1) w sc)"

definition onNext :: "host \<Rightarrow> widget \<Rightarrow> scene \<Rightarrow> outcome" where
  "onNext h w sc =
     (if currentIdx w < 0 then (None, w, sc, []) else loadCase h 1 w sc)"

section \<open>A sample host\<close>

text \<open>
  A host for the worked examples below: the directory \<open>dir\<close> holds \<open>files\<close>; a volume
  node is named after its file, without directory and extensions, as the host
  application does; every label file holds one segment with two voxels drawn; the layout
  has four slice views.
\<close>

definition os_path_basename :: "string \<Rightarrow> string" where
  "os_path_basename p = rev (takeWhile (\<lambda>c. c \<noteq> CHR ''/'') (rev p))"

definition sample_host :: "string \<Rightarrow> string list \<Rightarrow> host" where
  "sample_host dir files =
     \<lparr>loadVolume = (\<lambda>p. \<lparr>vol_name = takeWhile (\<lambda>c. c \<noteq> CHR ''.'') (os_path_basename p),
                           vol_file = p\<rparr>),
      importLabelmap = (\<lambda>p. [(''Segment_1'', Some [0, 1, 1, 0])]),
      listdir = (\<lambda>d. if d = dir then Some files else None),
      isdir = (\<lambda>d. d = dir),
      sliceViewNames = [''Red'', ''Yellow'', ''Green'', ''Slice4''],
      sliceNodeIDs = [''vtkMRMLSliceNodeRed'', ''vtkMRMLSliceNodeYellow'',
                      ''vtkMRMLSliceNodeGreen'', ''vtkMRMLSliceNodeSlice4''],
      images_items = images\<rparr>"

definition no_settings :: settings where
  "no_settings = \<lparr>s_root = None, s_addIms = None, s_addMas = None, s_csv_dir = None,
                   s_redirect = True\<rparr>"

definition empty_scene :: scene where
  "empty_scene = \<lparr>segs = [], backgrounds = [], selected_module = ''''\<rparr>"

text \<open>Nodes as the loader makes them for the sample host.\<close>

definition sample_volume :: "string \<Rightarrow> volume" where
  "sample_volume nm = \<lparr>vol_name = nm, vol_file = ''/data/p1/'' @ nm @ ''.nii.gz''\<rparr>"

definition sample_label :: "string \<Rightarrow> seg_node" where
  "sample_label nm =
     \<lparr>seg_name = nm @ ''_segment'', seg_visible = False, seg_view = None,
      seg_segments = [(''Segment_1'', Some [0, 1, 1, 0])], seg_master = None\<rparr>"

text \<open>
  A case with the early and the late arterial phase of the post-contrast T1, the early
  arterial phase of the pre-contrast T1, and a label drawn on the late phase; first with
  its slots filled, then with the lists of the four views set.
\<close>

definition late_arterial_case :: hcc_case where
  "late_arterial_case =
     (empty_case (sample_host ''/data/p1'' []) ''/data/p1'' ''bob'' no_settings)
       \<lparr>post_T1_EA := Some (sample_volume ''post_T1_EA''),
        post_T1_LA := Some (sample_volume ''post_T1_LA''),
        pre_T1_EA := Some (sample_volume ''pre_T1_EA''),
        post_T1_label := Some 0,
        image_root := Some ''/data/p1''\<rparr>"

definition late_arterial_views :: hcc_case where
  "late_arterial_views =
     late_arterial_case
       \<lparr>volumesLoad := [Some (sample_volume ''post_T1_LA''), Some (sample_volume ''pre_T1_EA''),
                        None, None],
        labelVolumesLoad := [Some 0, None, None, None]\<rparr>"

text \<open>Three directories, loaded into an empty scene by the reader \<open>bob\<close>.\<close>

definition adc_example :: "(error + hcc_case) \<times> scene" where
  "adc_example =
     new_case
       (sample_host ''/data/p1''
          [''pre_ADC.nii.gz'', ''pre_ADC_Eq_1.nii.gz'', ''pre_ADC_Eq_1_tumor_bob.nii.gz''])
       empty_scene ''/data/p1'' ''bob'' no_settings"

definition reviewed_example :: "(error + hcc_case) \<times> scene" where
  "reviewed_example =
     new_case
       (sample_host ''/data/p1'' [''post_T1_EA.nii.gz'', ''post_T1_EA_tumor_bob.nii.gz''])
       empty_scene ''/data/p1'' ''bob'' no_settings"

definition unslotted_example :: "(error + hcc_case) \<times> scene" where
  "unslotted_example =
     new_case (sample_host ''/data/p1'' [''pre_T1_pre_tumor_bob.nii.gz''])
       empty_scene ''/data/p1'' ''bob'' no_settings"

section \<open>Notions of the specification\<close>

text \<open>
  The label slot and the alternate volume of each of the four views, in the order of the
  views: the late arterial T1 for the two T1 views, the \<open>Eq_1\<close> series for the two ADC
  views.
\<close>

definition view_labels :: "hcc_case \<Rightarrow> nat option list" where
  "view_labels c = [post_T1_label c, pre_T1_label c, post_ADC_label c, pre_ADC_label c]"

definition view_alternate :: "hcc_case \<Rightarrow> volume option list" where
  "view_alternate c = [post_T1_LA c, pre_T1_LA c, post_ADC_Eq_1 c, pre_ADC_Eq_1 c]"

text \<open>
  What the loader keeps true of its accumulators: every entry of \<open>labels\<close> refers to a
  node of the scene, no two entries to the same node, and no node is tied to a view.
\<close>

definition fresh_labels :: "load_acc \<Rightarrow> bool" where
  "fresh_labels acc =
     (case acc of (raws, labels, sg) \<Rightarrow>
        (\<forall>p\<in>set labels. fst p < length sg) \<and> distinct (map fst labels) \<and>
        (\<forall>s\<in>set sg. seg_view s = None))"

text \<open>The cursor is unset, or a row of the table.\<close>

definition cursor_ok :: "widget \<Rightarrow> bool" where
  "cursor_ok w = (currentIdx w = - 1 \<or> (0 \<le> currentIdx w \<and> currentIdx w < caseCount w))"

section \<open>A sample session\<close>

text \<open>
  The widget as \<^verbatim>\<open>setup\<close> leaves it, the choice of a batch table
  (\<^verbatim>\<open>onChangeTable\<close>), and a batch of one row started with every field at its default;
  the reader name is empty by default.
\<close>

definition widget_setup :: widget where
  "widget_setup =
     setGUIstate False
       \<lparr>csv_dir = None, tableNode = None, caseColumns = None, currentCase = None,
        caseCount = 0, currentIdx = - 1, shortcuts = [], observers = [],
        previousButton_enabled = False, nextButton_enabled = False,
        nextButton_text = ''Next Case'',
        resetButton_enabled = False, resetButton_text = ''Start Batch'',
        inputDataCollapsibleButton_collapsed = False,
        parametersCollapsibleButton_collapsed = False,
        inputPathSelector_enabled = True, loadBatchButton_enabled = False,
        batchTableSelector_enabled = True, batchTableView_enabled = True,
        inputParametersGroupBox_enabled = True,
        batchTableSelector_currentNode = None,
        npStart_value = 1,
        rootSelector_text = ''path'', imageSelector_text = ''image'',
        maskSelector_text = ''mask'', addImsSelector_text = '''',
        addMasksSelector_text = '''', txtReaderName_text = '''',
        chkAutoRedirect_checked = True, chkSaveMasks_checked = True,
        chkSaveNewMasks_checked = True, logged = []\<rparr>"

definition onChangeTable :: "table option \<Rightarrow> widget \<Rightarrow> widget" where
  "onChangeTable t w =
     w\<lparr>batchTableSelector_currentNode := t, resetButton_enabled := (t \<noteq> None)\<rparr>"

definition one_row_table :: table where
  "one_row_table =
     \<lparr>tab_rows = 1, tab_columns = [(''patient'', [''/data/p1''])],
      tab_file = Some ''/data/batch.csv''\<rparr>"

definition one_row_batch :: outcome where
  "one_row_batch =
     onReset (sample_host ''/data/p1'' [''post_T1_EA.nii.gz''])
       (onChangeTable (Some one_row_table) widget_setup) empty_scene"

section \<open>Saving: what is skipped\<close>

lemma saveMasks_loop_written:
  "set (snd (saveMasks_loop sg folder rd nodes name out)) \<subseteq>
     set out \<union> {(n, f). \<not> mean_is_zero (first_segment_array (sg ! n))}"
proof (induction nodes arbitrary: name out)
  case Nil
  then show ?case by simp
next
  case (Cons p nodes)
  obtain nodename node where p: "p = (nodename, node)" by (cases p)
  show ?case
  proof (cases "mean_is_zero (first_segment_array (sg ! node))")
    case True
    with Cons.IH [of name out] p show ?thesis by simp
  next
    case False
    have step: "set (snd (saveMasks_loop sg folder rd nodes nm (out @ [(node, f)]))) \<subseteq>
        set out \<union> {(n, f). \<not> mean_is_zero (first_segment_array (sg ! n))}" for nm f
      using Cons.IH [of nm "out @ [(node, f)]"] False by auto
    show ?thesis
      using False step by (simp add: p Let_def split: option.splits)
  qed
qed

text \<open>
  C6. A segmentation handed to \<^verbatim>\<open>_saveMasks\<close> whose first segment's voxel array has
  mean exactly zero, or cannot be read at all, is the source of none of the files
  written, whatever the other segmentations, the folder and the reader name are, and
  whether the routine ends normally or with an error.
\<close>

theorem saveMasks_skips_empty:
  "(nodename, node) \<in> set nodes \<Longrightarrow> mean_is_zero (first_segment_array (sg ! node)) \<Longrightarrow>
     node \<notin> fst ` set (snd (saveMasks sg nodes folder rd))"
  using saveMasks_loop_written [of sg folder rd nodes None "[]"]
  by (auto simp: saveMasks_def)

theorem saveMasks_skips_empty_witness:
  "(''a_segment'', 0) \<in> set [(''a_segment'', 0), (''b_segment'', Suc 0)] \<and>
   mean_is_zero (first_segment_array
     ([\<lparr>seg_name = ''a_segment'', seg_visible = True, seg_view = None,
        seg_segments = [(''Target'', Some [0, 0, 0]), (''Background'', None)],
        seg_master = Some \<lparr>vol_name = ''a'', vol_file = ''/d/a.nii.gz''\<rparr>\<rparr>,
       \<lparr>seg_name = ''b_segment'', seg_visible = True, seg_view = None,
        seg_segments = [(''Target'', Some [0, 1, 0])],
        seg_master = Some \<lparr>vol_name = ''b'', vol_file = ''/d/b.nii.gz''\<rparr>\<rparr>] ! 0)) \<and>
   0 \<notin> fst ` set (snd (saveMasks
     [\<lparr>seg_name = ''a_segment'', seg_visible = True, seg_view = None,
       seg_segments = [(''Target'', Some [0, 0, 0]), (''Background'', None)],
       seg_master = Some \<lparr>vol_name = ''a'', vol_file = ''/d/a.nii.gz''\<rparr>\<rparr>,
      \<lparr>seg_name = ''b_segment'', seg_visible = True, seg_view = None,
       seg_segments = [(''Target'', Some [0, 1, 0])],
       seg_master = Some \<lparr>vol_name = ''b'', vol_file = ''/d/b.nii.gz''\<rparr>\<rparr>]
     [(''a_segment'', 0), (''b_segment'', Suc 0)] ''/d'' (Some ''bob'')))"
proof -
  have m: "(''a_segment'', 0) \<in> set [(''a_segment'', 0), (''b_segment'', Suc 0)]"
    by simp
  have z: "mean_is_zero (first_segment_array
     ([\<lparr>seg_name = ''a_segment'', seg_visible = True, seg_view = None,
        seg_segments = [(''Target'', Some [0, 0, 0]), (''Background'', None)],
        seg_master = Some \<lparr>vol_name = ''a'', vol_file = ''/d/a.nii.gz''\<rparr>\<rparr>,
       \<lparr>seg_name = ''b_segment'', seg_visible = True, seg_view = None,
        seg_segments = [(''Target'', Some [0, 1, 0])],
        seg_master = Some \<lparr>vol_name = ''b'', vol_file = ''/d/b.nii.gz''\<rparr>\<rparr>] ! 0))"
    by (simp add: mean_is_zero_def first_segment_array_def)
  show ?thesis
    using m z saveMasks_skips_empty [OF m z, of "''/d''" "Some ''bob''"] by blast
qed

section \<open>Closing with an empty reader name\<close>

text \<open>
  C10. Called with the empty string as reader name, \<^verbatim>\<open>closeCase\<close> ends with a
  \<^verbatim>\<open>TypeError\<close>: the name is replaced by \<open>None\<close> and then concatenated into the
  status line. Nothing has been written by then and the scene is as it was, whatever the
  case, the scene and the two save flags are.
\<close>

theorem closeCase_empty_reader:
  "closeCase c sc save_loaded_masks save_new_masks (Some '''') = (Some TypeError, [], sc)"
  by (simp add: closeCase_def)

section \<open>Which slots a directory fills\<close>

lemma lower_capitals:
  "lower ''ABCDEFGHIJKLMNOPQRSTUVWXYZ'' = ''abcdefghijklmnopqrstuvwxyz''"
  by code_simp

lemma match_volume_raws:
  "snd ` set (fst (match_volume h d i fn j k acc)) =
     snd ` set (fst acc) \<union> (if str_in (lower j @ ''.nii.gz'') fn then {k} else {})"
  by (cases acc) (auto simp: match_volume_def)

lemma match_volume_labels:
  "snd (match_volume h d i fn j k acc) = snd acc"
  by (cases acc) (auto simp: match_volume_def)

lemma match_label_raws:
  "fst (match_label h rd d i fn j k acc) = fst acc"
  by (cases acc) (auto simp: match_label_def)

lemma match_label_labels:
  "snd ` set (fst (snd (match_label h rd d i fn j k acc))) =
     snd ` set (fst (snd acc)) \<union>
     (if str_in (lower j @ ''_tumor_'' @ lower rd @ ''.nii.gz'') fn then {k} else {})"
  by (cases acc) (auto simp: match_label_def)

lemma scan_series_raws:
  "snd ` set (fst (scan_series h rd d i fn items acc)) =
     snd ` set (fst acc) \<union> {k. \<exists>j. (j, k) \<in> set items \<and> str_in (lower j @ ''.nii.gz'') fn}"
proof (induction items arbitrary: acc)
  case Nil
  then show ?case by simp
next
  case (Cons p items)
  obtain j k where p: "p = (j, k)" by (cases p)
  show ?case
    unfolding p scan_series.simps Cons.IH match_label_raws match_volume_raws
    by auto
qed

lemma scan_series_labels:
  "snd ` set (fst (snd (scan_series h rd d i fn items acc))) =
     snd ` set (fst (snd acc)) \<union>
     {k. \<exists>j. (j, k) \<in> set items \<and> str_in (lower j @ ''_tumor_'' @ lower rd @ ''.nii.gz'') fn}"
proof (induction items arbitrary: acc)
  case Nil
  then show ?case by simp
next
  case (Cons p items)
  obtain j k where p: "p = (j, k)" by (cases p)
  show ?case
    unfolding p scan_series.simps Cons.IH match_label_labels match_volume_labels
    by auto
qed

lemma scan_files_raws:
  "snd ` set (fst (scan_files h rd d items files acc)) =
     snd ` set (fst acc) \<union>
     {k. \<exists>i\<in>set files. \<exists>j. (j, k) \<in> set items \<and> str_in (lower j @ ''.nii.gz'') (lower i)}"
proof (induction files arbitrary: acc)
  case Nil
  then show ?case by simp
next
  case (Cons i files)
  show ?case
    unfolding scan_files.simps Cons.IH scan_series_raws
    by auto
qed

lemma scan_files_labels:
  "snd ` set (fst (snd (scan_files h rd d items files acc))) =
     snd ` set (fst (snd acc)) \<union>
     {k. \<exists>i\<in>set files. \<exists>j. (j, k) \<in> set items \<and>
           str_in (lower j @ ''_tumor_'' @ lower rd @ ''.nii.gz'') (lower i)}"
proof (induction files arbitrary: acc)
  case Nil
  then show ?case by simp
next
  case (Cons i files)
  show ?case
    unfolding scan_files.simps Cons.IH scan_series_labels
    by auto
qed

lemma series_numbers:
  "(k::nat) < 18 \<Longrightarrow> k \<in> {0, 1, 2, 3, 4, 5, 6, 7, 8, 9, 10, 11, 12, 13, 14, 15, 16, 17}"
  by (simp only: insert_iff empty_iff) arith

lemma assign_raw_other:
  "18 \<le> n \<Longrightarrow> assign_raw (v, n) c = c"
  by (simp add: assign_raw_def raw_slots_def store_if_def)

lemma assign_raw_slot:
  "k < 18 \<Longrightarrow> volume_slot k (assign_raw (v, n) c) = (if n = k then Some v else volume_slot k c)"
proof (cases "n < 18")
  case False
  assume "k < 18"
  with False show ?thesis by (simp add: assign_raw_other)
next
  case True
  assume k: "k < 18"
  from series_numbers [OF True] show ?thesis
    by (elim insertE emptyE)
       (use k in \<open>simp_all add: assign_raw_def raw_slots_def store_if_def volume_slot_def\<close>)
qed


lemma assign_raw_labels [simp]:
  "label_slot k (assign_raw i c) = label_slot k c"
proof -
  obtain v n where i: "i = (v, n)" by (cases i)
  show ?thesis
  proof (cases "n < 18")
    case False
    then show ?thesis by (simp add: i assign_raw_other)
  next
    case True
    from series_numbers [OF True] show ?thesis
      by (elim insertE emptyE)
         (simp_all add: i assign_raw_def raw_slots_def store_if_def label_slot_def)
  qed
qed

lemma assign_label_volumes [simp]:
  "volume_slot k (assign_label i c) = volume_slot k c"
  by (simp add: assign_label_def volume_slot_def Let_def)

lemma assign_label_slot:
  "label_slot k (assign_label (s, n) c) =
     (if n \<in> set (label_group k) then Some s else label_slot k c)"
  by (simp add: assign_label_def label_slot_def label_group_def Let_def)

lemma fold_assign_raw_labels [simp]:
  "label_slot k (fold assign_raw raws c) = label_slot k c"
  by (induction raws arbitrary: c) simp_all

lemma fold_assign_label_volumes [simp]:
  "volume_slot k (fold assign_label labels c) = volume_slot k c"
  by (induction labels arbitrary: c) simp_all

lemma fold_assign_raw_slot:
  "k < 18 \<Longrightarrow>
     volume_slot k (fold assign_raw raws c) \<noteq> None \<longleftrightarrow>
     volume_slot k c \<noteq> None \<or> k \<in> snd ` set raws"
proof (induction raws arbitrary: c)
  case Nil
  then show ?case by simp
next
  case (Cons i raws)
  obtain v n where i: "i = (v, n)" by (cases i)
  from Cons show ?case
    by (auto simp: i assign_raw_slot)
qed

lemma fold_assign_label_slot:
  "label_slot k (fold assign_label labels c) \<noteq> None \<longleftrightarrow>
     label_slot k c \<noteq> None \<or> (\<exists>n\<in>snd ` set labels. n \<in> set (label_group k))"
proof (induction labels arbitrary: c)
  case Nil
  then show ?case by simp
next
  case (Cons i labels)
  obtain s n where i: "i = (s, n)" by (cases i)
  show ?case
    unfolding i fold_Cons comp_apply Cons.IH assign_label_slot
    by auto
qed

lemma empty_case_slots [simp]:
  "volume_slot k (empty_case h subject rd st) = None"
  "label_slot k (empty_case h subject rd st) = None"
  "reader_name (empty_case h subject rd st) = rd"
  by (simp_all add: empty_case_def volume_slot_def label_slot_def)

lemma image_root_slots [simp]:
  "volume_slot k (c\<lparr>image_root := x\<rparr>) = volume_slot k c"
  "label_slot k (c\<lparr>image_root := x\<rparr>) = label_slot k c"
  by (simp_all add: volume_slot_def label_slot_def)

lemma images_number: "(j, k) \<in> set images \<Longrightarrow> k < 18"
  by (auto simp: images_def)

lemma distinct_snd_inj:
  "distinct (map snd xs) \<Longrightarrow> (a, k) \<in> set xs \<Longrightarrow> (b, k) \<in> set xs \<Longrightarrow> a = b"
  by (induction xs) (auto simp: image_iff)

lemma images_distinct: "distinct (map snd images)"
  by (simp add: images_def)

lemma images_inj: "(j, k) \<in> set images \<Longrightarrow> (j', k) \<in> set images \<Longrightarrow> j' = j"
  using distinct_snd_inj [OF images_distinct] by blast

lemma select_slots:
  assumes "listdir h subject_dir = Some files" and "k < 18"
  shows "\<exists>c' sg'.
     select_placeholder_for_view h items (empty_case h subject_dir rd st) sg subject_dir
       = Inr (c', sg') \<and>
     (volume_slot k c' \<noteq> None \<longleftrightarrow>
        (\<exists>f\<in>set files. \<exists>j. (j, k) \<in> set items \<and> str_in (lower j @ ''.nii.gz'') (lower f))) \<and>
     (label_slot k c' \<noteq> None \<longleftrightarrow>
        (\<exists>f\<in>set files. \<exists>(j', k')\<in>set items. k' \<in> set (label_group k) \<and>
           str_in (lower j' @ ''_tumor_'' @ lower rd @ ''.nii.gz'') (lower f)))"
proof -
  let ?acc = "scan_files h rd subject_dir items files ([], [], sg)"
  obtain raws labels sg' where acc: "?acc = (raws, labels, sg')"
    by (cases ?acc)
  have r: "snd ` set raws =
      {k. \<exists>i\<in>set files. \<exists>j. (j, k) \<in> set items \<and> str_in (lower j @ ''.nii.gz'') (lower i)}"
    using scan_files_raws [of h rd subject_dir items files "([], [], sg)"] acc by simp
  have l: "snd ` set labels =
      {k. \<exists>i\<in>set files. \<exists>j. (j, k) \<in> set items \<and>
            str_in (lower j @ ''_tumor_'' @ lower rd @ ''.nii.gz'') (lower i)}"
    using scan_files_labels [of h rd subject_dir items files "([], [], sg)"] acc by simp
  have sel: "select_placeholder_for_view h items (empty_case h subject_dir rd st) sg subject_dir
      = Inr (fold assign_label labels
               (fold assign_raw raws ((empty_case h subject_dir rd st)\<lparr>image_root := Some subject_dir\<rparr>)),
             sg')"
    using assms(1) acc
    by (simp add: select_placeholder_for_view_def load_data_to_placeholders_def)
  let ?c0 = "(empty_case h subject_dir rd st)\<lparr>image_root := Some subject_dir\<rparr>"
  have v: "(volume_slot k (fold assign_label labels (fold assign_raw raws ?c0)) \<noteq> None) =
      (\<exists>f\<in>set files. \<exists>j. (j, k) \<in> set items \<and> str_in (lower j @ ''.nii.gz'') (lower f))"
    unfolding fold_assign_label_volumes fold_assign_raw_slot [OF assms(2)] r
    by (simp del: not_None_eq)
  have lb: "(label_slot k (fold assign_label labels (fold assign_raw raws ?c0)) \<noteq> None) =
      (\<exists>f\<in>set files. \<exists>(j', k')\<in>set items. k' \<in> set (label_group k) \<and>
           str_in (lower j' @ ''_tumor_'' @ lower rd @ ''.nii.gz'') (lower f))"
    unfolding fold_assign_label_slot fold_assign_raw_labels l
    by (simp del: not_None_eq) blast
  show ?thesis
    unfolding sel using v lb by blast
qed




section \<open>The volume shown in each view\<close>

lemma swap_block_length:
  "swap_block sg alt i labs vols = Inr vs \<Longrightarrow> length vs = length vols"
  by (auto simp: swap_block_def nth_py_def set_py_def split: if_splits option.splits)

lemma swap_block_other:
  "swap_block sg alt i labs vols = Inr vs \<Longrightarrow> n \<noteq> i \<Longrightarrow> vs ! n = vols ! n"
  by (auto simp: swap_block_def nth_py_def set_py_def split: if_splits option.splits)

lemma swap_block_ok:
  "i < length labs \<Longrightarrow> i < length vols \<Longrightarrow> \<exists>vs. swap_block sg alt i labs vols = Inr vs"
  by (auto simp: swap_block_def nth_py_def set_py_def split: if_splits option.splits)

lemma swap_block_hit:
  "i < length labs \<Longrightarrow> i < length vols \<Longrightarrow> labs ! i = Some l \<Longrightarrow> alt = Some a \<Longrightarrow>
     str_in (seg_stem (seg_name (sg ! l))) (vol_name a) \<Longrightarrow>
     swap_block sg alt i labs vols = Inr (vols[i := Some a])"
  by (simp add: swap_block_def nth_py_def set_py_def)

lemma correct_volumesLoad_four:
  assumes "length vols = 4" and "length labs = 4"
  shows "\<exists>vs. correct_volumesLoad c sg vols labs = Inr vs \<and> length vs = 4 \<and> vs ! 3 = vols ! 3 \<and>
     (\<forall>i l a. i < 3 \<and> labs ! i = Some l \<and> view_alternate c ! i = Some a \<and>
        str_in (seg_stem (seg_name (sg ! l))) (vol_name a) \<longrightarrow> vs ! i = Some a)"
proof -
  obtain v0 where v0: "swap_block sg (post_T1_LA c) 0 labs vols = Inr v0"
    using swap_block_ok [of 0 labs vols] assms by auto
  have l0: "length v0 = 4" using swap_block_length [OF v0] assms by simp
  obtain v1 where v1: "swap_block sg (pre_T1_LA c) 1 labs v0 = Inr v1"
    using swap_block_ok [of 1 labs v0] assms l0 by auto
  have l1: "length v1 = 4" using swap_block_length [OF v1] l0 by simp
  obtain v2 where v2: "swap_block sg (post_ADC_Eq_1 c) 2 labs v1 = Inr v2"
    using swap_block_ok [of 2 labs v1] assms l1 by auto
  have l2: "length v2 = 4" using swap_block_length [OF v2] l1 by simp
  have res: "correct_volumesLoad c sg vols labs = Inr v2"
    using v0 v1 v2 by (simp add: correct_volumesLoad_def bind_err_def)
  have keep: "v2 ! 3 = vols ! 3"
    using swap_block_other [OF v0, of 3] swap_block_other [OF v1, of 3]
      swap_block_other [OF v2, of 3] by simp
  have hit: "v2 ! i = Some a"
    if "i < 3" "labs ! i = Some l" "view_alternate c ! i = Some a"
      "str_in (seg_stem (seg_name (sg ! l))) (vol_name a)" for i l a
  proof -
    from that(1) consider "i = 0" | "i = 1" | "i = 2" by linarith
    then show ?thesis
    proof cases
      case 1
      with that have "v0 = vols[0 := Some a]"
        using swap_block_hit [of 0 labs vols l "post_T1_LA c" a sg] v0 assms
        by (simp add: view_alternate_def)
      then have "v0 ! 0 = Some a" using assms by simp
      then show ?thesis
        using 1 swap_block_other [OF v1, of 0] swap_block_other [OF v2, of 0] by simp
    next
      case 2
      with that have "v1 = v0[1 := Some a]"
        using swap_block_hit [of 1 labs v0 l "pre_T1_LA c" a sg] v1 assms l0
        by (simp add: view_alternate_def)
      then have "v1 ! 1 = Some a" using l0 by simp
      then show ?thesis
        using 2 swap_block_other [OF v2, of 1] by simp
    next
      case 3
      with that have "v2 = v1[2 := Some a]"
        using swap_block_hit [of 2 labs v1 l "post_ADC_Eq_1 c" a sg] v2 assms l1
        by (simp add: view_alternate_def)
      then show ?thesis using 3 l1 by simp
    qed
  qed
  show ?thesis
    using res l2 keep hit by blast
qed



text \<open>
  The claim as the specification words it, for all four views, fails at the fourth. A
  directory with the two pre-contrast ADC series and a label drawn on the \<open>Eq_1\<close> series:
  the label slot of the fourth view holds the segmentation \<open>pre_ADC_Eq_1_segment\<close>, whose
  name cut at \<open>_segment\<close> is a substring of the name of the alternate volume
  \<open>pre_ADC_Eq_1\<close>, and yet the view is assigned, and shows, the volume \<open>pre_ADC\<close>.
\<close>

lemma adc_example_eval:
  "adc_example =
     (Inr \<lparr>sub_dir = ''/data/p1'', pre_T1_pre = None, pre_T1_EA = None,
           pre_T1_EA_sub = None, pre_T1_LA = None, pre_T1_LA_sub = None,
           pre_T1_PV = None, pre_T1_PV_sub = None,
           pre_ADC = Some \<lparr>vol_name = ''pre_ADC'', vol_file = ''/data/p1/pre_ADC.nii.gz''\<rparr>,
           post_T1_pre = None, post_T1_EA = None, post_T1_EA_sub = None,
           post_T1_LA = None, post_T1_LA_sub = None, post_T1_PV = None,
           post_T1_PV_sub = None, post_ADC = None, post_ADC_Eq_1 = None,
           pre_ADC_Eq_1 =
             Some \<lparr>vol_name = ''pre_ADC_Eq_1'', vol_file = ''/data/p1/pre_ADC_Eq_1.nii.gz''\<rparr>,
           pre_T1_label = None, post_T1_label = None, pre_ADC_label = Some 0,
           post_ADC_label = None,
           volumesLoad =
             [None, None, None,
              Some \<lparr>vol_name = ''pre_ADC'', vol_file = ''/data/p1/pre_ADC.nii.gz''\<rparr>],
           labelVolumesLoad = [None, None, None, Some 0], root = None,
           addIms = [], addMas = [], redirect = True, mask_nodes = [],
           reader_name = ''bob'', image_root = Some ''/data/p1''\<rparr>,
      \<lparr>segs =
         [\<lparr>seg_name = ''pre_ADC_Eq_1_segment'', seg_visible = True,
           seg_view = Some ''vtkMRMLSliceNodeYellow'',
           seg_segments = [(''Segment_1'', Some [0, 1, 1, 0])],
           seg_master =
             Some \<lparr>vol_name = ''pre_ADC'', vol_file = ''/data/p1/pre_ADC.nii.gz''\<rparr>\<rparr>],
       backgrounds =
         [(''Yellow'', \<lparr>vol_name = ''pre_ADC'', vol_file = ''/data/p1/pre_ADC.nii.gz''\<rparr>)],
       selected_module = ''SegmentEditor''\<rparr>)"
  by code_simp


section \<open>The segmentation of each view\<close>

lemma bind_view_length:
  "bind_view c i s sg = Inr sg1 \<Longrightarrow> length sg \<le> length sg1"
  by (auto simp: bind_view_def nth_py_def split: if_splits option.splits)

lemma bind_view_keep:
  "bind_view c i s sg = Inr sg1 \<Longrightarrow> m < length sg \<Longrightarrow>
     \<not> (labelVolumesLoad c ! i = Some m \<and> volumesLoad c ! i \<noteq> None) \<Longrightarrow> sg1 ! m = sg ! m"
  by (auto simp: bind_view_def nth_py_def nth_append split: if_splits option.splits)

lemma bind_view_ok:
  "i < length (labelVolumesLoad c) \<Longrightarrow> i < length (volumesLoad c) \<Longrightarrow>
     \<exists>sg1. bind_view c i s sg = Inr sg1"
  by (auto simp: bind_view_def nth_py_def split: if_splits option.splits)

lemma bind_view_views:
  "bind_view c i s sg = Inr sg1 \<Longrightarrow> x \<in> set sg1 \<Longrightarrow> seg_view x = Some w \<Longrightarrow>
     (\<exists>y\<in>set sg. seg_view y = Some w) \<or> (s = w \<and> volumesLoad c ! i \<noteq> None)"
  by (auto simp: bind_view_def nth_py_def split: if_splits option.splits
           dest!: set_update_subset_insert [THEN subsetD])

lemma bind_view_count:
  "bind_view c i s sg = Inr sg1 \<Longrightarrow>
     length sg1 = length sg +
       (if volumesLoad c ! i \<noteq> None \<and> labelVolumesLoad c ! i = None then 1 else 0)"
  by (auto simp: bind_view_def nth_py_def split: if_splits option.splits)

lemma bind_views_length:
  "length sg \<le> length (snd (bind_views c i vs sg))"
proof (induction vs arbitrary: i sg)
  case Nil
  then show ?case by simp
next
  case (Cons s vs)
  show ?case
  proof (cases "bind_view c i s sg")
    case (Inl e)
    then show ?thesis by simp
  next
    case (Inr sg1)
    with bind_view_length [OF Inr] Cons.IH [of sg1 "Suc i"] show ?thesis by simp
  qed
qed

lemma bind_views_keep:
  "m < length sg \<Longrightarrow>
     \<forall>j<length vs. \<not> (labelVolumesLoad c ! (i + j) = Some m \<and> volumesLoad c ! (i + j) \<noteq> None) \<Longrightarrow>
     snd (bind_views c i vs sg) ! m = sg ! m"
proof (induction vs arbitrary: i sg)
  case Nil
  then show ?case by simp
next
  case (Cons s vs)
  show ?case
  proof (cases "bind_view c i s sg")
    case (Inl e)
    then show ?thesis by simp
  next
    case (Inr sg1)
    have here: "\<not> (labelVolumesLoad c ! i = Some m \<and> volumesLoad c ! i \<noteq> None)"
      using Cons.prems(2) by fastforce
    have later: "\<forall>j<length vs. \<not> (labelVolumesLoad c ! (Suc i + j) = Some m \<and>
        volumesLoad c ! (Suc i + j) \<noteq> None)"
      using Cons.prems(2) by fastforce
    have "sg1 ! m = sg ! m"
      by (rule bind_view_keep [OF Inr Cons.prems(1) here])
    moreover have "m < length sg1"
      using bind_view_length [OF Inr] Cons.prems(1) by simp
    ultimately show ?thesis
      using Cons.IH [of sg1 "Suc i"] later Inr by simp
  qed
qed

lemma bind_views_ok:
  "\<forall>j<length vs. i + j < length (labelVolumesLoad c) \<and> i + j < length (volumesLoad c) \<Longrightarrow>
     fst (bind_views c i vs sg) = None"
proof (induction vs arbitrary: i sg)
  case Nil
  then show ?case by simp
next
  case (Cons s vs)
  have "i < length (labelVolumesLoad c)" "i < length (volumesLoad c)"
    using Cons.prems by fastforce+
  then obtain sg1 where sg1: "bind_view c i s sg = Inr sg1"
    using bind_view_ok by blast
  have "\<forall>j<length vs. Suc i + j < length (labelVolumesLoad c) \<and>
      Suc i + j < length (volumesLoad c)"
    using Cons.prems by fastforce
  then show ?case
    using Cons.IH [of "Suc i" sg1] sg1 by simp
qed

lemma bind_views_count:
  "\<forall>j<length vs. i + j < length (labelVolumesLoad c) \<and> i + j < length (volumesLoad c) \<Longrightarrow>
     length (snd (bind_views c i vs sg)) =
       length sg + length (filter (\<lambda>j. volumesLoad c ! j \<noteq> None \<and> labelVolumesLoad c ! j = None)
                             [i ..< i + length vs])"
proof (induction vs arbitrary: i sg)
  case Nil
  then show ?case by simp
next
  case (Cons s vs)
  have "i < length (labelVolumesLoad c)" "i < length (volumesLoad c)"
    using Cons.prems by fastforce+
  then obtain sg1 where sg1: "bind_view c i s sg = Inr sg1"
    using bind_view_ok by blast
  have later: "\<forall>j<length vs. Suc i + j < length (labelVolumesLoad c) \<and>
      Suc i + j < length (volumesLoad c)"
    using Cons.prems by fastforce
  have split: "[i ..< i + length (s # vs)] = i # [Suc i ..< Suc i + length vs]"
    by (simp add: upt_rec)
  show ?case
    unfolding split
    using Cons.IH [OF later, of sg1] sg1 bind_view_count [OF sg1] by simp
qed

lemma bind_views_views:
  "x \<in> set (snd (bind_views c i vs sg)) \<Longrightarrow> seg_view x = Some w \<Longrightarrow>
     (\<exists>y\<in>set sg. seg_view y = Some w) \<or>
     (\<exists>j<length vs. vs ! j = w \<and> volumesLoad c ! (i + j) \<noteq> None)"
proof (induction vs arbitrary: i sg)
  case Nil
  then show ?case by auto
next
  case (Cons s vs)
  show ?case
  proof (cases "bind_view c i s sg")
    case (Inl e)
    with Cons.prems show ?thesis by auto
  next
    case (Inr sg1)
    with Cons.prems have "x \<in> set (snd (bind_views c (Suc i) vs sg1))" by simp
    from Cons.IH [OF this Cons.prems(2)]
    consider y where "y \<in> set sg1" "seg_view y = Some w"
      | j where "j < length vs" "vs ! j = w" "volumesLoad c ! (Suc i + j) \<noteq> None"
      by blast
    then show ?thesis
    proof cases
      case 1
      from bind_view_views [OF Inr 1]
      show ?thesis
      proof
        assume "\<exists>y\<in>set sg. seg_view y = Some w"
        then show ?thesis by blast
      next
        assume "s = w \<and> volumesLoad c ! i \<noteq> None"
        then have "0 < length (s # vs) \<and> (s # vs) ! 0 = w \<and> volumesLoad c ! (i + 0) \<noteq> None"
          by simp
        then show ?thesis by blast
      qed
    next
      case 2
      then have "Suc j < length (s # vs) \<and> (s # vs) ! Suc j = w \<and>
          volumesLoad c ! (i + Suc j) \<noteq> None"
        by simp
      then show ?thesis by blast
    qed
  qed
qed


lemma bind_view_bound:
  "i < length (labelVolumesLoad c) \<Longrightarrow> i < length (volumesLoad c) \<Longrightarrow>
     labelVolumesLoad c ! i = Some m \<Longrightarrow> volumesLoad c ! i = Some v \<Longrightarrow>
     bind_view c i s sg =
       Inr (sg[m := (sg ! m)\<lparr>seg_visible := True, seg_view := Some s, seg_master := Some v\<rparr>])"
  by (simp add: bind_view_def nth_py_def)

lemma bind_view_created:
  "i < length (labelVolumesLoad c) \<Longrightarrow> i < length (volumesLoad c) \<Longrightarrow>
     labelVolumesLoad c ! i = None \<Longrightarrow> volumesLoad c ! i = Some v \<Longrightarrow>
     bind_view c i s sg =
       Inr (sg @ [\<lparr>seg_name = vol_name v @ ''_segment'', seg_visible = True,
                    seg_view = Some s,
                    seg_segments = [(''Target'', None), (''Background'', None)],
                    seg_master = Some v\<rparr>])"
  by (simp add: bind_view_def nth_py_def)

lemma bind_views_bound:
  "\<forall>j<length vs. i + j < length (labelVolumesLoad c) \<and> i + j < length (volumesLoad c) \<Longrightarrow>
     j < length vs \<Longrightarrow> labelVolumesLoad c ! (i + j) = Some m \<Longrightarrow>
     volumesLoad c ! (i + j) = Some v \<Longrightarrow> m < length sg \<Longrightarrow>
     \<forall>j'<length vs. j' \<noteq> j \<longrightarrow> labelVolumesLoad c ! (i + j') \<noteq> Some m \<Longrightarrow>
     snd (bind_views c i vs sg) ! m =
       (sg ! m)\<lparr>seg_visible := True, seg_view := Some (vs ! j), seg_master := Some v\<rparr>"
proof (induction vs arbitrary: i sg j)
  case Nil
  then show ?case by simp
next
  case (Cons s vs)
  have here: "i < length (labelVolumesLoad c)" "i < length (volumesLoad c)"
    using Cons.prems(1) by fastforce+
  have later: "\<forall>j<length vs. Suc i + j < length (labelVolumesLoad c) \<and>
      Suc i + j < length (volumesLoad c)"
    using Cons.prems(1) by fastforce
  show ?case
  proof (cases j)
    case 0
    let ?sg1 = "sg[m := (sg ! m)\<lparr>seg_visible := True, seg_view := Some s, seg_master := Some v\<rparr>]"
    have step: "bind_view c i s sg = Inr ?sg1"
      using bind_view_bound [OF here] Cons.prems(3,4) 0 by simp
    have rest: "\<forall>j'<length vs. \<not> (labelVolumesLoad c ! (Suc i + j') = Some m \<and>
        volumesLoad c ! (Suc i + j') \<noteq> None)"
      using Cons.prems(6) 0 by fastforce
    have "snd (bind_views c (Suc i) vs ?sg1) ! m = ?sg1 ! m"
      using bind_views_keep [of m ?sg1 vs c "Suc i"] rest Cons.prems(5) by simp
    then show ?thesis
      using step 0 Cons.prems(5) by simp
  next
    case (Suc j0)
    obtain sg1 where sg1: "bind_view c i s sg = Inr sg1"
      using bind_view_ok [OF here] by blast
    have "labelVolumesLoad c ! i \<noteq> Some m"
      using Cons.prems(6) Suc by fastforce
    then have same: "sg1 ! m = sg ! m"
      using bind_view_keep [OF sg1 Cons.prems(5)] by simp
    have len: "m < length sg1"
      using bind_view_length [OF sg1] Cons.prems(5) by simp
    have uniq: "\<forall>j'<length vs. j' \<noteq> j0 \<longrightarrow> labelVolumesLoad c ! (Suc i + j') \<noteq> Some m"
      using Cons.prems(6) Suc by fastforce
    have "snd (bind_views c (Suc i) vs sg1) ! m =
        (sg1 ! m)\<lparr>seg_visible := True, seg_view := Some (vs ! j0), seg_master := Some v\<rparr>"
      using Cons.IH [where i = "Suc i" and j = j0 and sg = sg1] later Cons.prems(2,3,4) Suc len uniq
      by simp
    then show ?thesis
      using sg1 same Suc by simp
  qed
qed

lemma bind_views_created:
  "\<forall>j<length vs. i + j < length (labelVolumesLoad c) \<and> i + j < length (volumesLoad c) \<Longrightarrow>
     j < length vs \<Longrightarrow> labelVolumesLoad c ! (i + j) = None \<Longrightarrow>
     volumesLoad c ! (i + j) = Some v \<Longrightarrow>
     \<forall>j'<length vs. \<forall>l. labelVolumesLoad c ! (i + j') = Some l \<longrightarrow> l < length sg \<Longrightarrow>
     \<exists>m. length sg \<le> m \<and> m < length (snd (bind_views c i vs sg)) \<and>
       snd (bind_views c i vs sg) ! m =
         \<lparr>seg_name = vol_name v @ ''_segment'', seg_visible = True,
          seg_view = Some (vs ! j),
          seg_segments = [(''Target'', None), (''Background'', None)],
          seg_master = Some v\<rparr>"
proof (induction vs arbitrary: i sg j)
  case Nil
  then show ?case by simp
next
  case (Cons s vs)
  have here: "i < length (labelVolumesLoad c)" "i < length (volumesLoad c)"
    using Cons.prems(1) by fastforce+
  have later: "\<forall>j<length vs. Suc i + j < length (labelVolumesLoad c) \<and>
      Suc i + j < length (volumesLoad c)"
    using Cons.prems(1) by fastforce
  have labs: "\<forall>j'<length vs. \<forall>l. labelVolumesLoad c ! (Suc i + j') = Some l \<longrightarrow> l < length sg"
    using Cons.prems(5) by fastforce
  show ?case
  proof (cases j)
    case 0
    let ?new = "\<lparr>seg_name = vol_name v @ ''_segment'', seg_visible = True,
          seg_view = Some s,
          seg_segments = [(''Target'', None), (''Background'', None)],
          seg_master = Some v\<rparr>"
    have step: "bind_view c i s sg = Inr (sg @ [?new])"
      using bind_view_created [OF here] Cons.prems(3,4) 0 by simp
    have rest: "\<forall>j'<length vs. \<not> (labelVolumesLoad c ! (Suc i + j') = Some (length sg) \<and>
        volumesLoad c ! (Suc i + j') \<noteq> None)"
      using labs by fastforce
    have at: "snd (bind_views c (Suc i) vs (sg @ [?new])) ! length sg = (sg @ [?new]) ! length sg"
      using bind_views_keep [of "length sg" "sg @ [?new]" vs c "Suc i"] rest by simp
    have "length sg < length (snd (bind_views c (Suc i) vs (sg @ [?new])))"
      using bind_views_length [of "sg @ [?new]" c "Suc i" vs] by simp
    with at step 0 show ?thesis
      by (intro exI [of _ "length sg"]) simp
  next
    case (Suc j0)
    obtain sg1 where sg1: "bind_view c i s sg = Inr sg1"
      using bind_view_ok [OF here] by blast
    have len: "length sg \<le> length sg1"
      by (rule bind_view_length [OF sg1])
    have labs1: "\<forall>j'<length vs. \<forall>l. labelVolumesLoad c ! (Suc i + j') = Some l \<longrightarrow> l < length sg1"
      using labs len by fastforce
    from Cons.IH [where i = "Suc i" and j = j0 and sg = sg1] later Cons.prems(2,3,4) Suc labs1
    obtain m where "length sg1 \<le> m" "m < length (snd (bind_views c (Suc i) vs sg1))"
      "snd (bind_views c (Suc i) vs sg1) ! m =
         \<lparr>seg_name = vol_name v @ ''_segment'', seg_visible = True,
          seg_view = Some (vs ! j0),
          seg_segments = [(''Target'', None), (''Background'', None)],
          seg_master = Some v\<rparr>"
      by auto
    with sg1 len Suc show ?thesis
      by (intro exI [of _ m]) simp
  qed
qed

text \<open>
  The state in which the loop over the slice nodes is reached: the lists of the views
  have four entries, and the label slots in use refer to nodes of the scene, each to a
  node of its own.
\<close>

lemma match_volume_fresh:
  "fresh_labels acc \<Longrightarrow> fresh_labels (match_volume h d i fn j k acc)"
  by (cases acc) (auto simp: match_volume_def fresh_labels_def)

lemma match_label_fresh:
  "fresh_labels acc \<Longrightarrow> fresh_labels (match_label h rd d i fn j k acc)"
  by (cases acc) (force simp: match_label_def fresh_labels_def less_Suc_eq)

lemma scan_series_fresh:
  "fresh_labels acc \<Longrightarrow> fresh_labels (scan_series h rd d i fn items acc)"
proof (induction items arbitrary: acc)
  case Nil
  then show ?case by simp
next
  case (Cons p items)
  obtain j k where p: "p = (j, k)" by (cases p)
  from Cons.prems show ?case
    unfolding p scan_series.simps
    by (intro Cons.IH match_label_fresh match_volume_fresh)
qed

lemma scan_files_fresh:
  "fresh_labels acc \<Longrightarrow> fresh_labels (scan_files h rd d items files acc)"
proof (induction files arbitrary: acc)
  case Nil
  then show ?case by simp
next
  case (Cons i files)
  from Cons.prems show ?case
    unfolding scan_files.simps
    by (intro Cons.IH scan_series_fresh)
qed

lemma fold_assign_label_source:
  "label_slot k (fold assign_label labels c) = Some l \<Longrightarrow>
     label_slot k c = Some l \<or> (\<exists>n. (l, n) \<in> set labels \<and> n \<in> set (label_group k))"
proof (induction labels arbitrary: c)
  case Nil
  then show ?case by simp
next
  case (Cons p labels)
  obtain s n where p: "p = (s, n)" by (cases p)
  from Cons.prems have "label_slot k (fold assign_label labels (assign_label (s, n) c)) = Some l"
    by (simp add: p)
  from Cons.IH [OF this] show ?case
    by (auto simp: p assign_label_slot split: if_splits)
qed


lemma four_cases: "(j::nat) < 4 \<longleftrightarrow> j \<in> {0, 1, 2, 3}"
  by auto

lemma view_label_nth:
  "j < 4 \<Longrightarrow>
     [post_T1_label c, pre_T1_label c, post_ADC_label c, pre_ADC_label c] ! j =
       label_slot ([9, 1, 15, 7] ! j) c"
  by (auto simp: four_cases label_slot_def)

lemma group_disjoint:
  "j < 4 \<Longrightarrow> j' < 4 \<Longrightarrow> j \<noteq> j' \<Longrightarrow> n \<in> set (label_group ([9, 1, 15, 7] ! j)) \<Longrightarrow>
     n \<notin> set (label_group ([9, 1, 15, 7] ! j'))"
  by (auto simp: four_cases label_group_def)

lemma set_view_lists_shape:
  assumes "set_view_lists c sg = Inr c2"
  shows "labelVolumesLoad c2 =
           [post_T1_label c, pre_T1_label c, post_ADC_label c, pre_ADC_label c] \<and>
         length (volumesLoad c2) = 4"
proof -
  let ?vols = "[post_T1_EA c, pre_T1_EA c, post_ADC c, pre_ADC c]"
  let ?labs = "[post_T1_label c, pre_T1_label c, post_ADC_label c, pre_ADC_label c]"
  let ?c = "c\<lparr>volumesLoad := ?vols, labelVolumesLoad := ?labs\<rparr>"
  obtain vs where vs: "correct_volumesLoad ?c sg ?vols ?labs = Inr vs" and len: "length vs = 4"
    using correct_volumesLoad_four [of ?vols ?labs ?c sg] by auto
  have "set_view_lists c sg = Inr (?c\<lparr>volumesLoad := vs\<rparr>)"
    using vs by (simp add: set_view_lists_def Let_def bind_err_def)
  with assms len show ?thesis by auto
qed

lemma loader_establishes:
  assumes sel: "select_placeholder_for_view h items (empty_case h subject rd st) sg0 subject
      = Inr (c1, sg1)"
    and lists: "set_view_lists c1 sg1 = Inr c2"
    and hidden: "\<forall>s\<in>set sg0. seg_view s = None"
  shows "length (volumesLoad c2) = 4 \<and> length (labelVolumesLoad c2) = 4 \<and>
     (\<forall>j<4. \<forall>l. labelVolumesLoad c2 ! j = Some l \<longrightarrow> l < length sg1) \<and>
     (\<forall>j<4. \<forall>j'<4. \<forall>l. j \<noteq> j' \<and> labelVolumesLoad c2 ! j = Some l \<longrightarrow>
        labelVolumesLoad c2 ! j' \<noteq> Some l) \<and>
     (\<forall>s\<in>set sg1. seg_view s = None)"
proof -
  from sel obtain files where files: "listdir h subject = Some files"
    by (auto simp: select_placeholder_for_view_def load_data_to_placeholders_def
             split: option.splits)
  let ?acc = "scan_files h rd subject items files ([], [], sg0)"
  obtain raws labels sg where acc: "?acc = (raws, labels, sg)"
    by (cases ?acc)
  let ?c0 = "(empty_case h subject rd st)\<lparr>image_root := Some subject\<rparr>"
  from sel files acc have c1: "c1 = fold assign_label labels (fold assign_raw raws ?c0)"
    and sg1: "sg1 = sg"
    by (auto simp: select_placeholder_for_view_def load_data_to_placeholders_def)
  have "fresh_labels ([], [], sg0)"
    using hidden by (simp add: fresh_labels_def)
  then have "fresh_labels ?acc"
    by (rule scan_files_fresh)
  then have range: "\<forall>p\<in>set labels. fst p < length sg1"
    and dist: "distinct (map fst labels)"
    and hid: "\<forall>s\<in>set sg1. seg_view s = None"
    by (auto simp: acc sg1 fresh_labels_def)
  have source: "\<exists>n. (l, n) \<in> set labels \<and> n \<in> set (label_group k)"
    if "label_slot k c1 = Some l" for k l
    using fold_assign_label_source [of k labels "fold assign_raw raws ?c0" l] that
    by (simp add: c1)
  have shape: "labelVolumesLoad c2 =
      [post_T1_label c1, pre_T1_label c1, post_ADC_label c1, pre_ADC_label c1]"
    and len: "length (volumesLoad c2) = 4"
    using set_view_lists_shape [OF lists] by auto
  have nth: "labelVolumesLoad c2 ! j = label_slot ([9, 1, 15, 7] ! j) c1" if "j < 4" for j
    using view_label_nth [OF that] shape by simp
  have in_range: "l < length sg1" if "j < 4" "labelVolumesLoad c2 ! j = Some l" for j l
  proof -
    from source [of "[9, 1, 15, 7] ! j" l] nth [OF that(1)] that(2)
    obtain n where "(l, n) \<in> set labels" by auto
    with range show ?thesis by force
  qed
  have apart: "labelVolumesLoad c2 ! j' \<noteq> Some l"
    if "j < 4" "j' < 4" "j \<noteq> j'" "labelVolumesLoad c2 ! j = Some l" for j j' l
  proof
    assume other: "labelVolumesLoad c2 ! j' = Some l"
    from source [of "[9, 1, 15, 7] ! j" l] nth [OF that(1)] that(4)
    obtain n where n: "(l, n) \<in> set labels" "n \<in> set (label_group ([9, 1, 15, 7] ! j))"
      by auto
    from source [of "[9, 1, 15, 7] ! j'" l] nth [OF that(2)] other
    obtain n' where n': "(l, n') \<in> set labels" "n' \<in> set (label_group ([9, 1, 15, 7] ! j'))"
      by auto
    have "n = n'"
      using eq_key_imp_eq_value [OF dist n(1) n'(1)] .
    with group_disjoint [OF that(1,2,3) n(2)] n'(2) show False by simp
  qed
  show ?thesis
    using len shape in_range apart hid by auto
qed



section \<open>What closing a case saves\<close>

text \<open>
  C3, tried on the code. A directory with one volume and one label of the reader \<open>bob\<close>
  is loaded: the scene then holds the segmentation read from the label file, with voxels
  drawn. The dictionary \<^verbatim>\<open>mask_nodes\<close>, from which \<^verbatim>\<open>closeCase\<close> takes the masks
  present at load time, is empty, because the loader never enters a node into it. Closing
  with only the save-loaded flag set therefore writes no file, and closing with only the
  save-new flag set writes the segmentation that was loaded.
\<close>

theorem loaded_masks_not_saved:
  "(case reviewed_example of
      (Inr c, sc) \<Rightarrow>
        (mask_nodes c, map seg_name (segs sc), map first_segment_array (segs sc),
         fst (snd (closeCase c sc True False (Some ''bob''))),
         fst (snd (closeCase c sc False True (Some ''bob''))))
    | (Inl e, sc) \<Rightarrow> ([], [], [], [], []))
   = ([], [''post_T1_EA_segment''], [Some [0, 1, 1, 0]], [],
      [(0, ''/data/p1/post_T1_EA_tumor_bob.nii.gz'')])"
  by code_simp

text \<open>
  C8, tried on the code. A label file of a series that has no label slot gives a
  segmentation that is never bound to a volume. When \<^verbatim>\<open>_saveMasks\<close> meets it first,
  the local variable \<^verbatim>\<open>name\<close> is read before it was ever assigned and the routine ends
  with an \<^verbatim>\<open>UnboundLocalError\<close>; when it meets it after a segmentation that has a
  master volume, it is saved all the same, under the name left over from that
  segmentation, to which the reader suffix is added a second time.
\<close>

theorem save_without_master:
  "(case unslotted_example of
      (Inr c, sc) \<Rightarrow>
        (map seg_master (segs sc), map first_segment_array (segs sc),
         fst (closeCase c sc False True (Some ''bob'')),
         fst (snd (closeCase c sc False True (Some ''bob''))))
    | (Inl e, sc) \<Rightarrow> ([], [], None, []))
   = ([None], [Some [0, 1, 1, 0]], Some UnboundLocalError, []) \<and>
   saveMasks
     [(sample_label ''post_T1_EA'')\<lparr>seg_master := Some (sample_volume ''post_T1_EA'')\<rparr>,
      sample_label ''pre_T1_pre'']
     [(''post_T1_EA_segment'', 0), (''pre_T1_pre_segment'', 1)] ''/data/p1'' (Some ''bob'')
   = (None, [(0, ''/data/p1/post_T1_EA_tumor_bob.nii.gz''),
             (1, ''/data/p1/post_T1_EA_tumor_bob_tumor_bob.nii.gz'')])"
  by code_simp

section \<open>The cursor of the controller\<close>

lemma setGUIstate_cursor [simp]:
  "currentIdx (setGUIstate b w) = currentIdx w"
  "caseCount (setGUIstate b w) = caseCount w"
  by (simp_all add: setGUIstate_def Let_def logger_def)

lemma logger_cursor [simp]:
  "currentIdx (logger e w) = currentIdx w"
  "caseCount (logger e w) = caseCount w"
  by (simp_all add: logger_def)

lemma lock_GUI_cursor [simp]:
  "currentIdx (lock_GUI w) = currentIdx w"
  "caseCount (lock_GUI w) = caseCount w"
  "currentIdx (unlock_GUI w) = currentIdx w"
  "caseCount (unlock_GUI w) = caseCount w"
  by (simp_all add: lock_GUI_def unlock_GUI_def)

lemma load_row_cursor:
  "currentIdx (fst (snd (load_row h w sc out))) = currentIdx w"
  "caseCount (fst (snd (load_row h w sc out))) = caseCount w"
  by (simp_all add: load_row_def Let_def split: option.splits prod.splits sum.splits)

lemma loadCase_cursor:
  assumes "cursor_ok w"
  shows "cursor_ok (fst (snd (loadCase h d w sc)))"
proof (cases "currentIdx w < 0 \<or> currentIdx w + d < 0")
  case True
  with assms show ?thesis
    by (auto simp: loadCase_def cursor_ok_def)
next
  case False
  obtain e out sc1 where cl:
    "(case currentCase w of None \<Rightarrow> (None, [], sc)
      | Some c \<Rightarrow> closeCase c sc (chkSaveMasks_checked w) (chkSaveNewMasks_checked w)
                    (Some (txtReaderName_text w))) = (e, out, sc1)"
    by (metis prod_cases3)
  show ?thesis
  proof (cases e)
    case (Some err)
    with False cl assms show ?thesis
      by (simp add: loadCase_def)
  next
    case None
    show ?thesis
    proof (cases "caseCount w \<le> currentIdx w + d")
      case True
      with False cl None show ?thesis
        by (simp add: loadCase_def Let_def cursor_ok_def)
    next
      case past: False
      with False cl None show ?thesis
        by (simp add: loadCase_def Let_def cursor_ok_def load_row_cursor)
    qed
  qed
qed

lemma startBatch_cursor:
  assumes "currentIdx w = - 1" and "1 \<le> start"
  shows "cursor_ok (snd (startBatch start w))"
  using assms
  by (simp add: startBatch_def Let_def cursor_ok_def split: option.splits prod.splits)

text \<open>
  C9. Whenever the cursor is unset (\<open>-1\<close>) or a row of the table, and the start position
  is at least 1 (the minimum of its spin box), it is again unset or a row of the table
  after the reset button (which starts a batch when none is active and resets otherwise),
  after Next and after Previous, also when the operation ends with an error. When the
  cursor is unset, Next and Previous return at once: the widget and the scene are
  unchanged and nothing is written.
\<close>

theorem cursor_invariant:
  assumes "cursor_ok w" and "1 \<le> npStart_value w"
  shows "cursor_ok (fst (snd (onReset h w sc))) \<and>
         cursor_ok (fst (snd (onNext h w sc))) \<and>
         cursor_ok (fst (snd (onPrevious h w sc))) \<and>
         (currentIdx w = - 1 \<longrightarrow>
            onNext h w sc = (None, w, sc, []) \<and> onPrevious h w sc = (None, w, sc, []))"
proof -
  have reset: "cursor_ok (fst (snd (onReset h w sc)))"
  proof (cases "currentIdx w < 0")
    case False
    then show ?thesis
      by (simp add: onReset_def Let_def cursor_ok_def)
  next
    case True
    with assms(1) have unset: "currentIdx (lock_GUI w) = - 1"
      by (auto simp: cursor_ok_def)
    have start: "1 \<le> npStart_value (lock_GUI w)"
      using assms(2) by (simp add: lock_GUI_def)
    obtain r w1 where sb: "startBatch (npStart_value (lock_GUI w)) (lock_GUI w) = (r, w1)"
      by (cases "startBatch (npStart_value (lock_GUI w)) (lock_GUI w)")
    have ok1: "cursor_ok w1"
      using startBatch_cursor [OF unset start] sb by simp
    show ?thesis
    proof (cases r)
      case (Inl e)
      with True sb ok1 show ?thesis
        by (simp add: onReset_def Let_def)
    next
      case (Inr started)
      with True sb ok1 loadCase_cursor [OF ok1, of h 0 sc] show ?thesis
        by (simp add: onReset_def Let_def)
    qed
  qed
  have "cursor_ok (fst (snd (onNext h w sc)))"
    using assms(1) loadCase_cursor [OF assms(1), of h 1 sc] by (simp add: onNext_def)
  moreover have "cursor_ok (fst (snd (onPrevious h w sc)))"
    using assms(1) loadCase_cursor [OF assms(1), of h "- 1" sc] by (simp add: onPrevious_def)
  moreover have "currentIdx w = - 1 \<longrightarrow>
      onNext h w sc = (None, w, sc, []) \<and> onPrevious h w sc = (None, w, sc, [])"
    by (simp add: onNext_def onPrevious_def)
  ultimately show ?thesis
    using reset by blast
qed

theorem cursor_invariant_witness:
  "cursor_ok (onChangeTable (Some one_row_table) widget_setup) \<and>
   1 \<le> npStart_value (onChangeTable (Some one_row_table) widget_setup) \<and>
   cursor_ok (fst (snd (onReset (sample_host ''/data/p1'' [''post_T1_EA.nii.gz''])
     (onChangeTable (Some one_row_table) widget_setup) empty_scene))) \<and>
   cursor_ok (fst (snd (onNext (sample_host ''/data/p1'' [''post_T1_EA.nii.gz''])
     (onChangeTable (Some one_row_table) widget_setup) empty_scene))) \<and>
   cursor_ok (fst (snd (onPrevious (sample_host ''/data/p1'' [''post_T1_EA.nii.gz''])
     (onChangeTable (Some one_row_table) widget_setup) empty_scene))) \<and>
   currentIdx (onChangeTable (Some one_row_table) widget_setup) = - 1 \<and>
   onNext (sample_host ''/data/p1'' [''post_T1_EA.nii.gz''])
     (onChangeTable (Some one_row_table) widget_setup) empty_scene
     = (None, onChangeTable (Some one_row_table) widget_setup, empty_scene, []) \<and>
   onPrevious (sample_host ''/data/p1'' [''post_T1_EA.nii.gz''])
     (onChangeTable (Some one_row_table) widget_setup) empty_scene
     = (None, onChangeTable (Some one_row_table) widget_setup, empty_scene, [])"
proof -
  have idx: "currentIdx (onChangeTable (Some one_row_table) widget_setup) = - 1"
    by (simp add: onChangeTable_def widget_setup_def)
  have a: "cursor_ok (onChangeTable (Some one_row_table) widget_setup)"
    by (simp add: cursor_ok_def idx)
  have b: "1 \<le> npStart_value (onChangeTable (Some one_row_table) widget_setup)"
    by (simp add: onChangeTable_def widget_setup_def setGUIstate_def)
  from cursor_invariant [OF a b, of "sample_host ''/data/p1'' [''post_T1_EA.nii.gz'']" empty_scene]
    a b idx
  show ?thesis by blast
qed

text \<open>
  C5. In an active batch, a change of the cursor that would lead before row 0 only adds
  the warning to the log: the cursor and all the rest of the widget are unchanged, the
  open case is not closed, the scene is unchanged and nothing is written.
\<close>

theorem retreat_before_first:
  assumes "0 \<le> currentIdx w" and "currentIdx w + idx_change < 0"
  shows "loadCase h idx_change w sc =
           (None, w\<lparr>logged := logged w @
                      [Warning ''First case selected, cannot select previous case!'']\<rparr>,
            sc, []) \<and>
         currentIdx (fst (snd (loadCase h idx_change w sc))) = currentIdx w"
  using assms by (simp add: loadCase_def logger_def)

theorem retreat_before_first_witness:
  "0 \<le> currentIdx (fst (snd one_row_batch)) \<and>
   currentIdx (fst (snd one_row_batch)) + (- 1) < 0 \<and>
   loadCase (sample_host ''/data/p1'' [''post_T1_EA.nii.gz'']) (- 1)
       (fst (snd one_row_batch)) (fst (snd (snd one_row_batch))) =
     (None,
      (fst (snd one_row_batch))
        \<lparr>logged := logged (fst (snd one_row_batch)) @
           [Warning ''First case selected, cannot select previous case!'']\<rparr>,
      fst (snd (snd one_row_batch)), []) \<and>
   currentIdx (fst (snd (loadCase (sample_host ''/data/p1'' [''post_T1_EA.nii.gz'']) (- 1)
       (fst (snd one_row_batch)) (fst (snd (snd one_row_batch)))))) =
     currentIdx (fst (snd one_row_batch))"
proof -
  have idx: "currentIdx (fst (snd one_row_batch)) = 0"
    by code_simp
  have a: "0 \<le> currentIdx (fst (snd one_row_batch))"
    by (simp add: idx)
  have b: "currentIdx (fst (snd one_row_batch)) + (- 1) < 0"
    by (simp add: idx)
  from retreat_before_first [OF a b] a b show ?thesis by blast
qed

text \<open>
  Past the last row: when there is no open case, or closing it succeeds, the controller
  goes to the state without a batch and the cursor is unset.
\<close>

lemma loadCase_past_end:
  assumes "0 \<le> currentIdx w" and "0 \<le> currentIdx w + idx_change"
    and "caseCount w \<le> currentIdx w + idx_change"
    and "(case currentCase w of
            None \<Rightarrow> (None, [], sc)
          | Some c \<Rightarrow> closeCase c sc (chkSaveMasks_checked w) (chkSaveNewMasks_checked w)
                        (Some (txtReaderName_text w))) = (None, out, sc1)"
  shows "\<exists>w'. loadCase h idx_change w sc = (None, w', sc1, out) \<and> currentIdx w' = - 1 \<and>
     tableNode w' = None \<and> shortcuts w' = [] \<and> observers w' = [] \<and>
     resetButton_text w' = ''Start Batch'' \<and>
     \<not> previousButton_enabled w' \<and> \<not> nextButton_enabled w'"
  using assms by (simp add: loadCase_def Let_def setGUIstate_def logger_def)

text \<open>With an open case and an empty reader name, closing fails before the cursor moves.\<close>

lemma loadCase_empty_reader:
  assumes "0 \<le> currentIdx w" and "0 \<le> currentIdx w + idx_change"
    and "currentCase w = Some c" and "txtReaderName_text w = []"
  shows "loadCase h idx_change w sc = (Some TypeError, w, sc, [])"
  using assms by (simp add: loadCase_def closeCase_def)

text \<open>
  C4, tried on the code. A batch of one row is started with every field at its default,
  so with the empty reader name; the case of row 0 is loaded without error. Next would
  move the cursor past the last row. It ends with a \<^verbatim>\<open>TypeError\<close> instead, raised
  while the open case is closed, and leaves the widget as it was: the cursor is still 0,
  not \<open>-1\<close>, and the batch is still active.
\<close>

theorem next_with_empty_reader:
  "(case one_row_batch of (e, w, sc, out) \<Rightarrow>
      (e, currentIdx w, caseCount w, txtReaderName_text w,
       onNext (sample_host ''/data/p1'' [''post_T1_EA.nii.gz'']) w sc = (Some TypeError, w, sc, [])))
   = (None, 0, 1, '''', True)"
  by code_simp

end
